theory Spec2Isabelle
  imports Complex_Main "HOL-Library.Multiset"
begin

section \<open>Errors and tensors\<close>

text \<open>
  The tensors of this first part hold real numbers: it follows which formula
  \<open>train_batch\<close> computes and which calls it makes, in exact arithmetic. Where the
  float computation leaves the finite numbers without raising (the mean of an empty tensor
  is nan), this part stops with \<open>NonFinite\<close>. The float32 arithmetic of lines 155 to
  163, with its rounding, its infinities and nan, is the section on float32 below. The
  other constructors are the exceptions the library raises.
\<close>

datatype error = KeyError | TypeError | IndexError | ShapeError | GradError | NonFinite

definition ebind :: "error + 'a \<Rightarrow> ('a \<Rightarrow> error + 'b) \<Rightarrow> error + 'b" where
  "ebind m f = (case m of Inl e \<Rightarrow> Inl e | Inr x \<Rightarrow> f x)"

fun collect :: "(error + 'a) list \<Rightarrow> error + 'a list" where
  "collect [] = Inr []"
| "collect (r # rs) =
     (case r of
        Inl e \<Rightarrow> Inl e
      | Inr x \<Rightarrow> (case collect rs of Inl e \<Rightarrow> Inl e | Inr xs \<Rightarrow> Inr (x # xs)))"

text \<open>
  A tensor carries its values and the flag \<open>requires_grad\<close>: whether it is part of the
  autograd graph. An operation's result requires a gradient when gradient recording is
  enabled (it is not inside \<open>torch.no_grad()\<close>) and one of its operands does.
\<close>

record 'a tensor =
  vals :: 'a
  requires_grad :: bool

text \<open>A parameter is a tensor with an accumulated gradient (\<open>p.grad\<close>, initially \<open>None\<close>).\<close>

record param = "real list tensor" +
  grad :: "real list option"

record model =
  parameters :: "param list"
  training :: bool

text \<open>
  The network architecture is external: a function from the parameters, the mode
  (\<open>train()\<close>/\<open>eval()\<close>) and a batch of observations to one row of per-action values
  per observation.
\<close>

type_synonym 'obs network = "param list \<Rightarrow> bool \<Rightarrow> 'obs list \<Rightarrow> real list list"

definition from_numpy :: "'a \<Rightarrow> 'a tensor" where
  "from_numpy v = \<lparr>vals = v, requires_grad = False\<rparr>"

definition detach :: "'a tensor \<Rightarrow> 'a tensor" where
  "detach t = \<lparr>vals = vals t, requires_grad = False\<rparr>"

definition call_model :: "'obs network \<Rightarrow> bool \<Rightarrow> model \<Rightarrow> 'obs list \<Rightarrow> real list list tensor" where
  "call_model net grad_enabled m obs =
     \<lparr>vals = net (parameters m) (training m) obs,
      requires_grad = (grad_enabled \<and> list_ex requires_grad (parameters m))\<rparr>"

subsection \<open>Elementwise operations on one-dimensional tensors\<close>

text \<open>Two operands of different lengths broadcast when one of them has length 1.\<close>

definition broadcast2 :: "('a \<Rightarrow> 'b \<Rightarrow> 'c) \<Rightarrow> 'a list \<Rightarrow> 'b list \<Rightarrow> error + 'c list" where
  "broadcast2 f xs ys =
     (if length xs = length ys then Inr (map2 f xs ys)
      else if length xs = 1 then Inr (map (f (hd xs)) ys)
      else if length ys = 1 then Inr (map (\<lambda>x. f x (hd ys)) xs)
      else Inl ShapeError)"

definition t_binop :: "bool \<Rightarrow> (real \<Rightarrow> real \<Rightarrow> real) \<Rightarrow> real list tensor \<Rightarrow> real list tensor
    \<Rightarrow> error + real list tensor" where
  "t_binop grad_enabled f a b =
     ebind (broadcast2 f (vals a) (vals b))
       (\<lambda>v. Inr \<lparr>vals = v, requires_grad = (grad_enabled \<and> (requires_grad a \<or> requires_grad b))\<rparr>)"

definition t_map :: "bool \<Rightarrow> (real \<Rightarrow> real) \<Rightarrow> real list tensor \<Rightarrow> real list tensor" where
  "t_map grad_enabled f a =
     \<lparr>vals = map f (vals a), requires_grad = (grad_enabled \<and> requires_grad a)\<rparr>"

subsection \<open>Reductions and indexing along dimension 1\<close>

definition max_row :: "real list \<Rightarrow> error + real" where
  "max_row row = (case row of [] \<Rightarrow> Inl IndexError | x # xs \<Rightarrow> Inr (fold max xs x))"

text \<open>\<open>t.max(dim=1)[0]\<close>\<close>

definition max_dim1 :: "bool \<Rightarrow> real list list tensor \<Rightarrow> error + real list tensor" where
  "max_dim1 grad_enabled t =
     ebind (collect (map max_row (vals t)))
       (\<lambda>v. Inr \<lparr>vals = v, requires_grad = (grad_enabled \<and> requires_grad t)\<rparr>)"

text \<open>
  The index of the first largest entry, scanning from the left. (Among equal largest
  entries the library does not promise which index it returns; the model takes the first.)
\<close>

fun argmax_from :: "real list \<Rightarrow> nat \<Rightarrow> real \<Rightarrow> nat \<Rightarrow> nat" where
  "argmax_from [] i best bi = bi"
| "argmax_from (x # xs) i best bi =
     (if best < x then argmax_from xs (Suc i) x i else argmax_from xs (Suc i) best bi)"

definition argmax_row :: "real list \<Rightarrow> error + int" where
  "argmax_row row =
     (case row of [] \<Rightarrow> Inl IndexError | x # xs \<Rightarrow> Inr (int (argmax_from xs 1 x 0)))"

text \<open>\<open>t.argmax(dim=1, keepdim=True)\<close>: an index tensor, never part of the graph.\<close>

definition argmax_dim1 :: "real list list tensor \<Rightarrow> error + int list" where
  "argmax_dim1 t = collect (map argmax_row (vals t))"

definition gather_row :: "real list \<Rightarrow> int \<Rightarrow> error + real" where
  "gather_row row i =
     (if 0 \<le> i \<and> i < int (length row) then Inr (row ! nat i) else Inl IndexError)"

text \<open>
  \<open>t.gather(1, idx).squeeze(1)\<close> for an index column \<open>idx\<close>: one index per row of
  \<open>t\<close>, each within the row.
\<close>

definition gather_dim1 :: "bool \<Rightarrow> real list list tensor \<Rightarrow> int list \<Rightarrow> error + real list tensor" where
  "gather_dim1 grad_enabled t idx =
     (if length (vals t) \<noteq> length idx then Inl ShapeError
      else ebind (collect (map2 gather_row (vals t) idx))
        (\<lambda>v. Inr \<lparr>vals = v, requires_grad = (grad_enabled \<and> requires_grad t)\<rparr>))"

text \<open>\<open>torch.mean\<close> of a one-dimensional tensor; of an empty one it is nan.\<close>

definition t_mean :: "bool \<Rightarrow> real list tensor \<Rightarrow> error + real tensor" where
  "t_mean grad_enabled t =
     (if vals t = [] then Inl NonFinite
      else Inr \<lparr>vals = sum_list (vals t) / real (length (vals t)),
                requires_grad = (grad_enabled \<and> requires_grad t)\<rparr>)"

definition smooth_l1 :: "real \<Rightarrow> real \<Rightarrow> real" where
  "smooth_l1 x y = (if \<bar>x - y\<bar> < 1 then (x - y)\<^sup>2 / 2 else \<bar>x - y\<bar> - 1 / 2)"

text \<open>\<open>F.smooth_l1_loss(input, target, reduction='none')\<close>: the shapes must agree.\<close>

definition smooth_l1_loss :: "bool \<Rightarrow> real list tensor \<Rightarrow> real list tensor \<Rightarrow> error + real list tensor" where
  "smooth_l1_loss grad_enabled a b =
     (if length (vals a) \<noteq> length (vals b) then Inl ShapeError
      else Inr \<lparr>vals = map2 smooth_l1 (vals a) (vals b),
                requires_grad = (grad_enabled \<and> (requires_grad a \<or> requires_grad b))\<rparr>)"


section \<open>Settings and the replay sample\<close>

text \<open>
  \<open>DqnReinforcerSettings\<close> is a plain attribute class: the annotated types are not
  enforced and no validator is attached, so the integers are Python's unbounded integers
  and \<open>max_grad_norm\<close> may be \<open>None\<close>.
\<close>

record settings =
  epsilon_schedule :: "real \<Rightarrow> real"
  train_frequency :: int
  batch_size :: int
  double_dqn :: bool
  target_update_frequency :: int
  discount_factor :: real
  max_grad_norm :: "real option"

text \<open>
  The dictionary of aligned arrays returned by the env-roller's \<open>sample\<close>, under the keys
  \<open>states\<close>, \<open>states+1\<close>, \<open>dones\<close>, \<open>rewards\<close>, \<open>actions\<close> and \<open>weights\<close>.
\<close>

record 'obs batch_sample =
  states :: "'obs list"
  states_p1 :: "'obs list"
  dones :: "bool list"
  rewards :: "real list"
  actions :: "int list"
  weights :: "real list"

section \<open>The temporal-difference target and the loss of \<open>train_batch\<close>\<close>

text \<open>
  Lines 144 to 155 run inside \<open>torch.no_grad()\<close>: every operation there is applied with
  gradient recording disabled. \<open>train\<close> is \<open>self.model\<close>, \<open>target\<close> is
  \<open>self.target_model\<close>.
\<close>

definition bootstrap_values :: "'obs network \<Rightarrow> settings \<Rightarrow> model \<Rightarrow> model \<Rightarrow> 'obs list
    \<Rightarrow> error + real list tensor" where
  "bootstrap_values net s train target obs_tplus1 =
     (if double_dqn s then
        (let target_values = call_model net False target obs_tplus1;
             model_values = call_model net False train obs_tplus1
         in ebind (argmax_dim1 model_values) (\<lambda>idx. gather_dim1 False target_values idx))
      else max_dim1 False (call_model net False target obs_tplus1))"

definition dones_tensor :: "'obs batch_sample \<Rightarrow> real list tensor" where
  "dones_tensor bs = from_numpy (map (\<lambda>d. if d then 1 else 0) (dones bs))"

definition expected_q :: "'obs network \<Rightarrow> settings \<Rightarrow> model \<Rightarrow> model \<Rightarrow> 'obs batch_sample
    \<Rightarrow> error + real list tensor" where
  "expected_q net s train target bs =
     ebind (bootstrap_values net s train target (states_p1 bs)) (\<lambda>values.
     ebind (t_binop False (*) (t_map False (\<lambda>v. discount_factor s * v) values)
              (t_map False (\<lambda>d. 1 - d) (dones_tensor bs))) (\<lambda>bootstrap.
     t_binop False (+) (from_numpy (rewards bs)) bootstrap))"

definition q_selected :: "'obs network \<Rightarrow> model \<Rightarrow> 'obs batch_sample \<Rightarrow> error + real list tensor" where
  "q_selected net train bs = gather_dim1 True (call_model net True train (states bs)) (actions bs)"

definition original_losses :: "'obs network \<Rightarrow> settings \<Rightarrow> model \<Rightarrow> model \<Rightarrow> 'obs batch_sample
    \<Rightarrow> error + real list tensor" where
  "original_losses net s train target bs =
     ebind (expected_q net s train target bs) (\<lambda>e.
     ebind (q_selected net train bs) (\<lambda>q.
     smooth_l1_loss True q (detach e)))"

definition loss :: "'obs batch_sample \<Rightarrow> real list tensor \<Rightarrow> error + real tensor" where
  "loss bs losses =
     ebind (t_binop True (*) (from_numpy (weights bs)) losses) (t_mean True)"


section \<open>Facts about the library operations\<close>

lemma ebind_Inr_iff: "ebind m f = Inr y \<longleftrightarrow> (\<exists>x. m = Inr x \<and> f x = Inr y)"
  by (cases m) (simp_all add: ebind_def)

lemma ebind_Inr [simp]: "ebind (Inr x) f = f x"
  by (simp add: ebind_def)

lemma collect_Inr_iff: "collect rs = Inr xs \<longleftrightarrow> rs = map Inr xs"
proof (induction rs arbitrary: xs)
  case Nil
  show ?case by auto
next
  case (Cons r rs)
  show ?case
  proof (cases r)
    case (Inl e)
    then show ?thesis by (cases xs) auto
  next
    case r: (Inr x)
    show ?thesis
    proof (cases "collect rs")
      case (Inl e)
      have "rs \<noteq> map Inr ys" for ys using Cons.IH[of ys] Inl by simp
      then show ?thesis using r Inl by (cases xs) auto
    next
      case (Inr ys)
      then have "rs = map Inr ys" using Cons.IH[of ys] by simp
      then show ?thesis using r Inr by (cases xs) (auto simp: inj_map_eq_map)
    qed
  qed
qed

lemma collect_map_Inr [simp]: "collect (map Inr xs) = Inr xs"
  by (simp add: collect_Inr_iff)

lemma max_row_Max: "row \<noteq> [] \<Longrightarrow> max_row row = Inr (Max (set row))"
proof (cases row)
  case Nil
  assume "row \<noteq> []"
  with Nil show ?thesis by simp
next
  case (Cons x xs)
  show ?thesis unfolding Cons max_row_def using Max.set_eq_fold[of x xs] by simp
qed

lemma argmax_from_spec:
  assumes "bi < i"
  shows "(argmax_from xs i best bi = bi \<and> (\<forall>x\<in>set xs. x \<le> best)) \<or>
         (\<exists>k<length xs. argmax_from xs i best bi = i + k \<and> best < xs ! k
            \<and> (\<forall>x\<in>set xs. x \<le> xs ! k) \<and> (\<forall>j<k. xs ! j < xs ! k))"
  using assms
proof (induction xs arbitrary: i best bi)
  case Nil
  then show ?case by simp
next
  case (Cons x xs)
  show ?case
  proof (cases "best < x")
    case True
    have "i < Suc i" by simp
    from Cons.IH[OF this, of x] show ?thesis
    proof
      assume a: "argmax_from xs (Suc i) x i = i \<and> (\<forall>y\<in>set xs. y \<le> x)"
      have "argmax_from (x # xs) i best bi = i + 0 \<and> best < (x # xs) ! 0
            \<and> (\<forall>y\<in>set (x # xs). y \<le> (x # xs) ! 0) \<and> (\<forall>j<0. (x # xs) ! j < (x # xs) ! 0)"
        using a True by simp
      then show ?thesis by blast
    next
      assume "\<exists>k<length xs. argmax_from xs (Suc i) x i = Suc i + k \<and> x < xs ! k
            \<and> (\<forall>y\<in>set xs. y \<le> xs ! k) \<and> (\<forall>j<k. xs ! j < xs ! k)"
      then obtain k where k: "k < length xs" "argmax_from xs (Suc i) x i = Suc i + k" "x < xs ! k"
        "\<forall>y\<in>set xs. y \<le> xs ! k" "\<forall>j<k. xs ! j < xs ! k" by blast
      have "Suc k < length (x # xs) \<and> argmax_from (x # xs) i best bi = i + Suc k \<and> best < (x # xs) ! Suc k
            \<and> (\<forall>y\<in>set (x # xs). y \<le> (x # xs) ! Suc k) \<and> (\<forall>j<Suc k. (x # xs) ! j < (x # xs) ! Suc k)"
        using k True by (auto simp: less_Suc_eq_0_disj)
      then show ?thesis by blast
    qed
  next
    case False
    have "bi < Suc i" using Cons.prems by simp
    from Cons.IH[OF this, of best] show ?thesis
    proof
      assume "argmax_from xs (Suc i) best bi = bi \<and> (\<forall>y\<in>set xs. y \<le> best)"
      then show ?thesis using False by auto
    next
      assume "\<exists>k<length xs. argmax_from xs (Suc i) best bi = Suc i + k \<and> best < xs ! k
            \<and> (\<forall>y\<in>set xs. y \<le> xs ! k) \<and> (\<forall>j<k. xs ! j < xs ! k)"
      then obtain k where k: "k < length xs" "argmax_from xs (Suc i) best bi = Suc i + k" "best < xs ! k"
        "\<forall>y\<in>set xs. y \<le> xs ! k" "\<forall>j<k. xs ! j < xs ! k" by blast
      have "Suc k < length (x # xs) \<and> argmax_from (x # xs) i best bi = i + Suc k \<and> best < (x # xs) ! Suc k
            \<and> (\<forall>y\<in>set (x # xs). y \<le> (x # xs) ! Suc k) \<and> (\<forall>j<Suc k. (x # xs) ! j < (x # xs) ! Suc k)"
        using k False by (auto simp: less_Suc_eq_0_disj)
      then show ?thesis by blast
    qed
  qed
qed

lemma argmax_row_spec:
  assumes "row \<noteq> []"
  shows "\<exists>a<length row. argmax_row row = Inr (int a) \<and> (\<forall>j<length row. row ! j \<le> row ! a)
           \<and> (\<forall>j<a. row ! j < row ! a)"
proof -
  obtain x xs where row: "row = x # xs" using assms by (cases row) auto
  have "(0::nat) < 1" by simp
  from argmax_from_spec[OF this, of xs x] show ?thesis
  proof
    assume a: "argmax_from xs 1 x 0 = 0 \<and> (\<forall>y\<in>set xs. y \<le> x)"
    have "0 < length row \<and> argmax_row row = Inr (int 0) \<and> (\<forall>j<length row. row ! j \<le> row ! 0)
           \<and> (\<forall>j<0. row ! j < row ! 0)"
      using a row by (auto simp: argmax_row_def nth_Cons split: nat.splits)
    then show ?thesis by blast
  next
    assume "\<exists>k<length xs. argmax_from xs 1 x 0 = 1 + k \<and> x < xs ! k
            \<and> (\<forall>y\<in>set xs. y \<le> xs ! k) \<and> (\<forall>j<k. xs ! j < xs ! k)"
    then obtain k where k: "k < length xs" "argmax_from xs 1 x 0 = 1 + k" "x < xs ! k"
        "\<forall>y\<in>set xs. y \<le> xs ! k" "\<forall>j<k. xs ! j < xs ! k" by blast
    have "Suc k < length row \<and> argmax_row row = Inr (int (Suc k)) \<and> (\<forall>j<length row. row ! j \<le> row ! Suc k)
           \<and> (\<forall>j<Suc k. row ! j < row ! Suc k)"
      using k row by (auto simp: argmax_row_def nth_Cons less_Suc_eq_0_disj split: nat.splits)
    then show ?thesis by blast
  qed
qed


lemma max_dim1_ok:
  assumes "\<forall>r\<in>set (vals t). r \<noteq> []"
  shows "max_dim1 g t = Inr \<lparr>vals = map (\<lambda>r. Max (set r)) (vals t), requires_grad = (g \<and> requires_grad t)\<rparr>"
proof -
  have "map max_row (vals t) = map Inr (map (\<lambda>r. Max (set r)) (vals t))"
    using assms by (simp add: max_row_Max)
  then have "collect (map max_row (vals t)) = Inr (map (\<lambda>r. Max (set r)) (vals t))"
    by (simp only: collect_map_Inr)
  then show ?thesis by (simp add: max_dim1_def)
qed

text \<open>The row index \<open>argmax_row\<close> returns on a non-empty row, as a natural number.\<close>

definition first_argmax :: "real list \<Rightarrow> nat" where
  "first_argmax row = (case row of [] \<Rightarrow> 0 | x # xs \<Rightarrow> argmax_from xs 1 x 0)"

lemma argmax_row_first: "row \<noteq> [] \<Longrightarrow> argmax_row row = Inr (int (first_argmax row))"
  by (cases row) (simp_all add: argmax_row_def first_argmax_def)

lemma first_argmax_spec:
  assumes "row \<noteq> []"
  shows "first_argmax row < length row" "j < length row \<Longrightarrow> row ! j \<le> row ! first_argmax row"
    "j < first_argmax row \<Longrightarrow> row ! j < row ! first_argmax row"
  using argmax_row_spec[OF assms] argmax_row_first[OF assms] by auto

lemma argmax_dim1_ok:
  assumes "\<forall>r\<in>set (vals t). r \<noteq> []"
  shows "argmax_dim1 t = Inr (map (\<lambda>r. int (first_argmax r)) (vals t))"
proof -
  have "map argmax_row (vals t) = map Inr (map (\<lambda>r. int (first_argmax r)) (vals t))"
    using assms by (simp add: argmax_row_first)
  then show ?thesis by (simp only: argmax_dim1_def collect_map_Inr)
qed

lemma gather_dim1_ok:
  assumes "length (vals t) = length idx"
    and "\<forall>i<length idx. 0 \<le> idx ! i \<and> idx ! i < int (length (vals t ! i))"
  shows "gather_dim1 g t idx =
      Inr \<lparr>vals = map2 (\<lambda>r i. r ! nat i) (vals t) idx, requires_grad = (g \<and> requires_grad t)\<rparr>"
proof -
  have "map2 gather_row (vals t) idx = map Inr (map2 (\<lambda>r i. r ! nat i) (vals t) idx)"
    using assms by (auto simp: list_eq_iff_nth_eq gather_row_def)
  then have "collect (map2 gather_row (vals t) idx) = Inr (map2 (\<lambda>r i. r ! nat i) (vals t) idx)"
    by (simp only: collect_map_Inr)
  then show ?thesis using assms(1) by (simp add: gather_dim1_def)
qed



lemma map_nth_upt: "length xs = n \<Longrightarrow> map f xs = map (\<lambda>i. f (xs ! i)) [0..<n]"
  by (auto simp: list_eq_iff_nth_eq)

lemma broadcast2_same: "length xs = length ys \<Longrightarrow> broadcast2 f xs ys = Inr (map2 f xs ys)"
  by (simp add: broadcast2_def)

text \<open>The bootstrap value of one transition, from its rows of target and train values.\<close>

definition bootstrap_of :: "bool \<Rightarrow> real list \<Rightarrow> real list \<Rightarrow> real" where
  "bootstrap_of dd trow mrow = (if dd then trow ! first_argmax mrow else Max (set trow))"

lemma bootstrap_values_closed:
  fixes net :: "'obs network"
  assumes tv: "tv = net (parameters target) (training target) obs"
    and mv: "mv = net (parameters train) (training train) obs"
    and tshape: "length tv = n" "\<forall>r\<in>set tv. length r = A"
    and mshape: "double_dqn s \<longrightarrow> length mv = n \<and> (\<forall>r\<in>set mv. length r = A)"
    and A: "0 < A"
  shows "bootstrap_values net s train target obs =
     Inr \<lparr>vals = map (\<lambda>i. bootstrap_of (double_dqn s) (tv ! i) (mv ! i)) [0..<n], requires_grad = False\<rparr>"
proof (cases "double_dqn s")
  case False
  have ne: "\<forall>r\<in>set tv. r \<noteq> []" using tshape A by auto
  have "map (\<lambda>r. Max (set r)) tv = map (\<lambda>i. Max (set (tv ! i))) [0..<n]"
    using tshape(1) by (rule map_nth_upt)
  then show ?thesis
    using False ne by (simp add: bootstrap_values_def call_model_def max_dim1_ok tv[symmetric] bootstrap_of_def)
next
  case True
  then have ms: "length mv = n" "\<forall>r\<in>set mv. length r = A" using mshape by auto
  have ne: "\<forall>r\<in>set mv. r \<noteq> []" using ms A by auto
  let ?idx = "map (\<lambda>r. int (first_argmax r)) mv"
  have am: "argmax_dim1 (call_model net False train obs) = Inr ?idx"
    using argmax_dim1_ok[of "call_model net False train obs"] ne
    by (simp add: call_model_def mv[symmetric])
  have rng: "\<forall>i<length ?idx. 0 \<le> ?idx ! i \<and> ?idx ! i < int (length (tv ! i))"
  proof (intro allI impI)
    fix i assume "i < length ?idx"
    then have i: "i < n" using ms by simp
    then have "mv ! i \<in> set mv" "tv ! i \<in> set tv" using ms tshape by auto
    then have "mv ! i \<noteq> []" "length (mv ! i) = A" "length (tv ! i) = A" using ne ms tshape by auto
    then show "0 \<le> ?idx ! i \<and> ?idx ! i < int (length (tv ! i))"
      using first_argmax_spec(1)[of "mv ! i"] i ms by simp
  qed
  have ga: "gather_dim1 False (call_model net False target obs) ?idx =
      Inr \<lparr>vals = map2 (\<lambda>r i. r ! nat i) tv ?idx, requires_grad = False\<rparr>"
    using gather_dim1_ok[of "call_model net False target obs" ?idx False] rng tshape ms
    by (simp add: call_model_def tv[symmetric])
  have "map2 (\<lambda>r i. r ! nat i) tv ?idx = map (\<lambda>i. tv ! i ! first_argmax (mv ! i)) [0..<n]"
    using tshape(1) ms(1) by (auto simp: list_eq_iff_nth_eq)
  then show ?thesis
    using True am ga by (simp add: bootstrap_values_def Let_def bootstrap_of_def)
qed

lemma expected_q_closed:
  fixes net :: "'obs network"
  assumes bv: "bootstrap_values net s train target (states_p1 bs) = Inr v"
    and len: "length (vals v) = n" "length (rewards bs) = n" "length (dones bs) = n"
  shows "expected_q net s train target bs =
     Inr \<lparr>vals = map (\<lambda>i. rewards bs ! i + discount_factor s * vals v ! i * (1 - (if dones bs ! i then 1 else 0))) [0..<n],
          requires_grad = False\<rparr>"
proof -
  let ?g = "map (\<lambda>x. discount_factor s * x) (vals v)"
  let ?d = "map (\<lambda>d. 1 - d) (map (\<lambda>d. if d then 1 else 0) (dones bs))"
  have m: "broadcast2 (*) ?g ?d = Inr (map2 (*) ?g ?d)"
    using len by (simp add: broadcast2_same)
  have a: "broadcast2 (+) (rewards bs) (map2 (*) ?g ?d) = Inr (map2 (+) (rewards bs) (map2 (*) ?g ?d))"
    using len by (simp add: broadcast2_same)
  have "map2 (+) (rewards bs) (map2 (*) ?g ?d) =
      map (\<lambda>i. rewards bs ! i + discount_factor s * vals v ! i * (1 - (if dones bs ! i then 1 else 0))) [0..<n]"
    using len by (auto simp: list_eq_iff_nth_eq)
  then show ?thesis
    using bv m a
    by (simp add: expected_q_def t_binop_def t_map_def dones_tensor_def from_numpy_def del: map_map)
qed







section \<open>A tabular example\<close>

text \<open>
  A tabular action-value function over observations \<open>0, 1, ...\<close>: parameter \<open>o\<close> holds
  the per-action values of observation \<open>o\<close>. The train and the target table differ.
\<close>

definition tabular_net :: "nat network" where
  "tabular_net ps mode obs = map (\<lambda>ob. if ob < length ps then vals (ps ! ob) else []) obs"

definition table :: "bool \<Rightarrow> real list list \<Rightarrow> model" where
  "table mode rows = \<lparr>parameters = map (\<lambda>r. \<lparr>vals = r, requires_grad = True, grad = None\<rparr>) rows,
                      training = mode\<rparr>"

definition ex_train :: model where
  "ex_train = table True [[1, 5], [0, 0]]"

definition ex_target :: model where
  "ex_target = table False [[7, 2], [3, 4]]"

definition ex_settings :: settings where
  "ex_settings = \<lparr>epsilon_schedule = (\<lambda>p. 1 - p), train_frequency = 2, batch_size = 2,
                   double_dqn = True, target_update_frequency = 10, discount_factor = 1 / 2,
                   max_grad_norm = Some 1\<rparr>"

definition ex_sample :: "nat batch_sample" where
  "ex_sample = \<lparr>states = [0, 1], states_p1 = [1, 0], dones = [False, True],
                 rewards = [1, - 1 / 2], actions = [1, 0], weights = [1, 2]\<rparr>"

lemma ex_target_values: "tabular_net (parameters ex_target) (training ex_target) [1, 0] = [[3, 4], [7, 2]]"
  by (simp add: tabular_net_def ex_target_def table_def)

lemma ex_model_values: "tabular_net (parameters ex_train) (training ex_train) [1, 0] = [[0, 0], [1, 5]]"
  by (simp add: tabular_net_def ex_train_def table_def)

lemma ex_q: "tabular_net (parameters ex_train) (training ex_train) [0, 1] = [[1, 5], [0, 0]]"
  by (simp add: tabular_net_def ex_train_def table_def)

lemma ex_bootstrap_double:
  "bootstrap_values tabular_net ex_settings ex_train ex_target [1, 0] = Inr \<lparr>vals = [3, 2], requires_grad = False\<rparr>"
proof -
  have "double_dqn ex_settings" by (simp add: ex_settings_def)
  then show ?thesis
    by (simp add: bootstrap_values_def call_model_def ex_target_values ex_model_values
      argmax_dim1_def argmax_row_def gather_dim1_def gather_row_def del: One_nat_def)
qed

lemma ex_bootstrap_vanilla:
  "bootstrap_values tabular_net (ex_settings\<lparr>double_dqn := False\<rparr>) ex_train ex_target [1, 0]
     = Inr \<lparr>vals = [4, 7], requires_grad = False\<rparr>"
proof -
  have "\<not> double_dqn (ex_settings\<lparr>double_dqn := False\<rparr>)" by simp
  then show ?thesis
    by (simp add: bootstrap_values_def call_model_def ex_target_values
      max_dim1_def max_row_def del: One_nat_def)
qed

lemma ex_expected_q:
  "expected_q tabular_net ex_settings ex_train ex_target ex_sample = Inr \<lparr>vals = [5 / 2, - 1 / 2], requires_grad = False\<rparr>"
proof -
  have sp: "states_p1 ex_sample = [1, 0]" by (simp add: ex_sample_def)
  have "expected_q tabular_net ex_settings ex_train ex_target ex_sample =
      ebind (t_binop False (*) (t_map False (\<lambda>v. discount_factor ex_settings * v) \<lparr>vals = [3, 2], requires_grad = False\<rparr>)
              (t_map False (\<lambda>d. 1 - d) (dones_tensor ex_sample))) (\<lambda>bootstrap.
         t_binop False (+) (from_numpy (rewards ex_sample)) bootstrap)"
    by (simp only: expected_q_def sp ex_bootstrap_double ebind_Inr)
  also have "\<dots> = Inr \<lparr>vals = [5 / 2, - 1 / 2], requires_grad = False\<rparr>"
    by (simp add: t_binop_def t_map_def broadcast2_def
      dones_tensor_def from_numpy_def ex_sample_def ex_settings_def)
  finally show ?thesis .
qed

section \<open>Float32 arithmetic\<close>

text \<open>
  The tensors of lines 155 to 163 hold float32 values, and their operations are the float32
  ones. A value is a finite number, an infinity or nan (the sign of a zero is not
  modelled: the two zeros are equal as numbers). An operation on finite operands rounds its
  exact result to the nearest number with a significand of 24 bits, a tie to the even
  significand; below \<open>2 ^ - 126\<close> the spacing stays \<open>2 ^ - 149\<close>, and a
  rounded magnitude of \<open>2 ^ 128\<close> or more is an infinity.
\<close>

datatype f32 = Fin real | PInf | NInf | NaN

text \<open>
  The binary exponent of \<open>a > 0\<close>: the \<open>e\<close> with \<open>2 ^ e \<le> a < 2 ^ (e + 1)\<close>, searched
  upwards from 0 to 128 and downwards from 0 to \<open>- 126\<close>, where it stops.
\<close>

fun exp_up :: "nat \<Rightarrow> real \<Rightarrow> int \<Rightarrow> int" where
  "exp_up 0 a e = e"
| "exp_up (Suc n) a e = (if a < 2 then e else exp_up n (a / 2) (e + 1))"

fun exp_down :: "nat \<Rightarrow> real \<Rightarrow> int \<Rightarrow> int" where
  "exp_down 0 a e = e"
| "exp_down (Suc n) a e = (if 1 \<le> a then e else exp_down n (a * 2) (e - 1))"

definition exponent :: "real \<Rightarrow> int" where
  "exponent a = (if 1 \<le> a then exp_up 128 a 0 else exp_down 126 a 0)"

definition round_half_even :: "real \<Rightarrow> int" where
  "round_half_even q =
     (let f = \<lfloor>q\<rfloor>; d = q - of_int f
      in if d < 1 / 2 then f else if 1 / 2 < d then f + 1 else if even f then f else f + 1)"

text \<open>
  Rounding to float32: of the exact result of an operation, of an array converted by
  \<open>astype(np.float32)\<close> or \<open>.float()\<close>, and of a Python scalar that meets a float32
  tensor.
\<close>

definition round32 :: "real \<Rightarrow> f32" where
  "round32 x =
     (if x = 0 then Fin 0
      else let ulp = 2 powi (exponent \<bar>x\<bar> - 23);
               y = of_int (round_half_even (\<bar>x\<bar> / ulp)) * ulp
           in if 2 ^ 128 \<le> y then (if 0 < x then PInf else NInf)
              else Fin (if 0 < x then y else - y))"

fun fneg :: "f32 \<Rightarrow> f32" where
  "fneg (Fin x) = Fin (- x)"
| "fneg PInf = NInf"
| "fneg NInf = PInf"
| "fneg NaN = NaN"

text \<open>Opposite infinities add up to nan.\<close>

fun fadd :: "f32 \<Rightarrow> f32 \<Rightarrow> f32" where
  "fadd (Fin x) (Fin y) = round32 (x + y)"
| "fadd NaN b = NaN"
| "fadd a NaN = NaN"
| "fadd PInf NInf = NaN"
| "fadd NInf PInf = NaN"
| "fadd PInf b = PInf"
| "fadd NInf b = NInf"
| "fadd (Fin x) b = b"

definition fsub :: "f32 \<Rightarrow> f32 \<Rightarrow> f32" where
  "fsub a b = fadd a (fneg b)"

text \<open>An infinity times zero is nan.\<close>

definition inf_times :: "bool \<Rightarrow> real \<Rightarrow> f32" where
  "inf_times positive x =
     (if x = 0 then NaN else if (0 < x) = positive then PInf else NInf)"

fun fmul :: "f32 \<Rightarrow> f32 \<Rightarrow> f32" where
  "fmul (Fin x) (Fin y) = round32 (x * y)"
| "fmul NaN b = NaN"
| "fmul a NaN = NaN"
| "fmul PInf (Fin y) = inf_times True y"
| "fmul NInf (Fin y) = inf_times False y"
| "fmul (Fin x) PInf = inf_times True x"
| "fmul (Fin x) NInf = inf_times False x"
| "fmul PInf PInf = PInf"
| "fmul NInf NInf = PInf"
| "fmul PInf NInf = NInf"
| "fmul NInf PInf = NInf"


definition finite_f32 :: "f32 \<Rightarrow> bool" where
  "finite_f32 v = (case v of Fin x \<Rightarrow> True | _ \<Rightarrow> False)"

text \<open>
  Line 155 on float32 tensors. \<open>values\<close> is the tensor of lines 144 to 153, the rewards
  and the flags are converted by \<open>astype(np.float32)\<close>, and the Python number
  \<open>discount_factor\<close> becomes a float32 scalar when it meets the tensor.
\<close>

definition expected_q_f32 :: "settings \<Rightarrow> 'obs batch_sample \<Rightarrow> f32 list \<Rightarrow> error + f32 list" where
  "expected_q_f32 s bs values =
     ebind (broadcast2 fmul (map (fmul (round32 (discount_factor s))) values)
              (map (\<lambda>d. fsub (Fin 1) (if d then Fin 1 else Fin 0)) (dones bs))) (\<lambda>bootstrap.
     broadcast2 fadd (map round32 (rewards bs)) bootstrap)"



subsection \<open>Rounding returns float32 values\<close>

lemma exp_up_spec:
  "1 \<le> a \<Longrightarrow> e \<le> exp_up n a e \<and> exp_up n a e \<le> e + int n
     \<and> 2 powi (exp_up n a e - e) \<le> a
     \<and> (a < 2 ^ n \<longrightarrow> a < 2 powi (exp_up n a e - e + 1))"
proof (induction n arbitrary: a e)
  case 0
  then show ?case by simp
next
  case (Suc n)
  show ?case
  proof (cases "a < 2")
    case True
    with Suc.prems show ?thesis by simp
  next
    case False
    hence h: "1 \<le> a / 2" by simp
    let ?r = "exp_up n (a / 2) (e + 1)"
    from Suc.IH[OF h, of "e + 1"]
    have 1: "e + 1 \<le> ?r" and 2: "?r \<le> e + 1 + int n"
      and 3: "2 powi (?r - (e + 1)) \<le> a / 2"
      and 4: "a / 2 < 2 ^ n \<longrightarrow> a / 2 < 2 powi (?r - (e + 1) + 1)"
      by auto
    have p: "(2::real) powi (?r - e) = 2 * 2 powi (?r - (e + 1))"
      using power_int_add[of "2::real" 1 "?r - (e + 1)"] by simp
    have q: "(2::real) powi (?r - e + 1) = 2 * 2 powi (?r - (e + 1) + 1)"
      using power_int_add[of "2::real" 1 "?r - (e + 1) + 1"] by (simp add: algebra_simps)
    from False 1 2 3 4 show ?thesis
      by (simp add: p q)
  qed
qed

lemma exp_down_spec:
  "0 < a \<Longrightarrow> a < 2 \<Longrightarrow> e - int n \<le> exp_down n a e \<and> exp_down n a e \<le> e
     \<and> a < 2 powi (exp_down n a e - e + 1)
     \<and> (e - int n < exp_down n a e \<longrightarrow> 2 powi (exp_down n a e - e) \<le> a)"
proof (induction n arbitrary: a e)
  case 0
  then show ?case by simp
next
  case (Suc n)
  show ?case
  proof (cases "1 \<le> a")
    case True
    with Suc.prems show ?thesis by simp
  next
    case False
    hence h: "0 < a * 2" "a * 2 < 2" using Suc.prems by simp_all
    let ?r = "exp_down n (a * 2) (e - 1)"
    from Suc.IH[OF h, of "e - 1"]
    have 1: "e - 1 - int n \<le> ?r" and 2: "?r \<le> e - 1"
      and 3: "a * 2 < 2 powi (?r - (e - 1) + 1)"
      and 4: "e - 1 - int n < ?r \<longrightarrow> 2 powi (?r - (e - 1)) \<le> a * 2"
      by auto
    have p: "(2::real) powi (?r - (e - 1) + 1) = 2 * 2 powi (?r - e + 1)"
      using power_int_add[of "2::real" 1 "?r - e + 1"] by (simp add: algebra_simps)
    have q: "(2::real) powi (?r - (e - 1)) = 2 * 2 powi (?r - e)"
      using power_int_add[of "2::real" 1 "?r - e"] by (simp add: algebra_simps)
    from 3 have c3: "a < 2 powi (?r - e + 1)" unfolding p by simp
    from 4 have c4: "e - 1 - int n < ?r \<longrightarrow> 2 powi (?r - e) \<le> a" unfolding q by simp
    have r: "exp_down (Suc n) a e = ?r" using False by simp
    show ?thesis unfolding r using 1 2 c3 c4 by simp
  qed
qed

lemma exp_up_full: "2 ^ n \<le> a \<Longrightarrow> exp_up n a e = e + int n"
proof (induction n arbitrary: a e)
  case 0
  then show ?case by simp
next
  case (Suc n)
  have "(2::real) \<le> 2 ^ Suc n" by simp
  hence "\<not> a < 2" using Suc.prems by linarith
  moreover have "2 ^ n \<le> a / 2" using Suc.prems by simp
  ultimately show ?case using Suc.IH[of "a / 2" "e + 1"] by simp
qed

lemma exponent_overflow: "2 ^ 128 \<le> a \<Longrightarrow> exponent a = 128"
proof -
  assume h: "2 ^ 128 \<le> a"
  have "(1::real) \<le> 2 ^ 128" by simp
  hence "1 \<le> a" using h by linarith
  thus ?thesis using exp_up_full[OF h, of 0] by (simp add: exponent_def)
qed

lemma exponent_spec:
  assumes "0 < a"
  shows "- 126 \<le> exponent a" and "exponent a \<le> 128"
    and "a < 2 ^ 128 \<Longrightarrow> a < 2 powi (exponent a + 1)"
    and "- 126 < exponent a \<Longrightarrow> 2 powi (exponent a) \<le> a"
proof -
  have "- 126 \<le> exponent a \<and> exponent a \<le> 128
      \<and> (a < 2 ^ 128 \<longrightarrow> a < 2 powi (exponent a + 1))
      \<and> (- 126 < exponent a \<longrightarrow> 2 powi (exponent a) \<le> a)"
  proof (cases "1 \<le> a")
    case True
    from exp_up_spec[OF True, of 0 128] True show ?thesis
      by (simp add: exponent_def)
  next
    case False
    hence "a < 2" by simp
    from exp_down_spec[OF assms this, of 0 126] False show ?thesis
      by (simp add: exponent_def)
  qed
  thus "- 126 \<le> exponent a" and "exponent a \<le> 128"
    and "a < 2 ^ 128 \<Longrightarrow> a < 2 powi (exponent a + 1)"
    and "- 126 < exponent a \<Longrightarrow> 2 powi (exponent a) \<le> a"
    by simp_all
qed

lemma exponent_unique:
  assumes a: "0 < a" and k: "- 126 \<le> k" "k \<le> 127"
    and up: "a < 2 powi (k + 1)" and lo: "- 126 < k \<Longrightarrow> 2 powi k \<le> a"
  shows "exponent a = k"
proof -
  let ?r = "exponent a"
  have "(2::real) powi (k + 1) \<le> 2 powi 128"
    using k by (intro power_int_increasing) simp_all
  hence a128: "a < 2 ^ 128" using up by simp
  note s = exponent_spec[OF a]
  have "\<not> ?r < k"
  proof
    assume lt: "?r < k"
    hence "2 powi k \<le> a" using lo s(1) by simp
    moreover have "(2::real) powi (?r + 1) \<le> 2 powi k"
      using lt by (intro power_int_increasing) simp_all
    ultimately show False using s(3)[OF a128] by simp
  qed
  moreover have "\<not> k < ?r"
  proof
    assume lt: "k < ?r"
    hence "2 powi ?r \<le> a" using s(4) k by simp
    moreover have "(2::real) powi (k + 1) \<le> 2 powi ?r"
      using lt by (intro power_int_increasing) simp_all
    ultimately show False using up by simp
  qed
  ultimately show ?thesis by simp
qed

lemma round_half_even_of_int [simp]: "round_half_even (of_int m) = m"
  by (simp add: round_half_even_def)

lemma round_half_even_ge: "of_int m \<le> q \<Longrightarrow> m \<le> round_half_even q"
proof -
  assume "of_int m \<le> q"
  hence "m \<le> \<lfloor>q\<rfloor>" by (simp add: le_floor_iff)
  thus ?thesis unfolding round_half_even_def Let_def by simp
qed

lemma round_half_even_le: "q \<le> of_int m \<Longrightarrow> round_half_even q \<le> m"
proof -
  assume h: "q \<le> of_int m"
  hence f: "\<lfloor>q\<rfloor> \<le> m" by (simp add: floor_le_iff)
  have "q - of_int \<lfloor>q\<rfloor> < 1 / 2 \<or> \<lfloor>q\<rfloor> + 1 \<le> m"
  proof (cases "\<lfloor>q\<rfloor> = m")
    case True
    with h have "q - of_int \<lfloor>q\<rfloor> \<le> 0" by simp
    thus ?thesis by simp
  next
    case False
    with f show ?thesis by simp
  qed
  thus ?thesis using f unfolding round_half_even_def Let_def by auto
qed

lemma round32_exact:
  assumes w: "0 < w" "w < 2 ^ 128" and g: "w = of_int m * 2 powi (exponent w - 23)"
  shows "round32 w = Fin w" and "round32 (- w) = Fin (- w)"
proof -
  let ?u = "(2::real) powi (exponent w - 23)"
  have u: "0 < ?u" by simp
  have "w / ?u = of_int m" using g u by (metis nonzero_mult_div_cancel_right less_irrefl)
  hence r: "of_int (round_half_even (w / ?u)) * ?u = w" using g by simp
  show "round32 w = Fin w" using w r by (simp add: round32_def Let_def)
  show "round32 (- w) = Fin (- w)" using w r by (simp add: round32_def Let_def)
qed

lemma grid_exponent:
  assumes w: "0 < w" "w < 2 ^ 128" and g: "w = of_int n * 2 powi (e - 23)"
    and e: "- 126 \<le> e" and n: "n \<le> 2 ^ 24" "- 126 < e \<Longrightarrow> 2 ^ 23 \<le> n"
  shows "\<exists>m. w = of_int m * 2 powi (exponent w - 23)"
proof -
  let ?u = "(2::real) powi (e - 23)"
  have u: "0 < ?u" by simp
  have e1: "(2::real) powi (e + 1) = 2 ^ 24 * ?u"
    using power_int_add[of "2::real" 24 "e - 23"] by (simp add: algebra_simps)
  have e0: "(2::real) powi e = 2 ^ 23 * ?u"
    using power_int_add[of "2::real" 23 "e - 23"] by (simp add: algebra_simps)
  have npos: "0 < n" using w g u by (simp add: zero_less_mult_iff)
  consider (top) "n = 2 ^ 24" | (mid) "2 ^ 23 \<le> n" "n < 2 ^ 24" | (sub) "n < 2 ^ 23"
    using n(1) by linarith
  thus ?thesis
  proof cases
    case top
    hence weq: "w = 2 powi (e + 1)" using g e1 by simp
    have "(2::real) powi (e + 1) < 2 powi 128" using w(2) weq by simp
    have "e + 1 < 128"
    proof (rule ccontr)
      assume "\<not> e + 1 < 128"
      hence "(2::real) powi 128 \<le> 2 powi (e + 1)" by (intro power_int_increasing) simp_all
      with \<open>2 powi (e + 1) < 2 powi 128\<close> show False by simp
    qed
    hence k: "- 126 \<le> e + 1" "e + 1 \<le> 127" using e by simp_all
    have up: "w < 2 powi (e + 1 + 1)"
      unfolding weq by (intro power_int_strict_increasing) simp_all
    have ex: "exponent w = e + 1"
      by (rule exponent_unique[OF w(1) k up]) (simp add: weq)
    have "(2::real) powi (e + 1) = 2 ^ 23 * 2 powi (e + 1 - 23)"
      using power_int_add[of "2::real" 23 "e + 1 - 23"] by (simp add: algebra_simps)
    hence "w = of_int (2 ^ 23) * 2 powi (exponent w - 23)" using weq ex by simp
    thus ?thesis by blast
  next
    case mid
    have lo: "2 powi e \<le> w"
      unfolding e0 g using mid(1) u by (simp add: mult_right_mono flip: of_int_le_iff)
    have "w < 2 ^ 24 * ?u"
      unfolding g using mid(2) u by (simp flip: of_int_less_iff)
    hence up: "w < 2 powi (e + 1)" using e1 by simp
    have "(2::real) powi e < 2 powi 128" using lo w(2) by simp
    have "e < 128"
    proof (rule ccontr)
      assume "\<not> e < 128"
      hence "(2::real) powi 128 \<le> 2 powi e" by (intro power_int_increasing) simp_all
      with \<open>2 powi e < 2 powi 128\<close> show False by simp
    qed
    hence k: "e \<le> 127" by simp
    have ex: "exponent w = e"
      by (rule exponent_unique[OF w(1) e k up]) (rule lo)
    show ?thesis
    proof (rule exI[of _ n])
      show "w = of_int n * 2 powi (exponent w - 23)" unfolding ex by (rule g)
    qed
  next
    case sub
    hence em: "e = - 126" using n(2) e by force
    have "w < 2 ^ 23 * ?u"
      unfolding g using sub u by (simp flip: of_int_less_iff)
    hence "w < 2 powi e" using e0 by simp
    also have "\<dots> \<le> 2 powi (e + 1)" by (intro power_int_increasing) simp_all
    finally have up: "w < 2 powi (e + 1)" .
    have ex: "exponent w = e"
      by (rule exponent_unique[OF w(1) e _ up]) (simp_all add: em)
    show ?thesis
    proof (rule exI[of _ n])
      show "w = of_int n * 2 powi (exponent w - 23)" unfolding ex by (rule g)
    qed
  qed
qed

lemma round32_idem:
  assumes "round32 x = Fin y"
  shows "round32 y = Fin y"
proof (cases "x = 0")
  case True
  with assms show ?thesis by (simp add: round32_def)
next
  case False
  let ?a = "\<bar>x\<bar>"
  let ?e = "exponent ?a"
  let ?u = "(2::real) powi (?e - 23)"
  let ?n = "round_half_even (?a / ?u)"
  let ?w = "of_int ?n * ?u"
  have a: "0 < ?a" using False by simp
  have u: "0 < ?u" by simp
  note s = exponent_spec[OF a]
  from assms False have fin: "?w < 2 ^ 128" and y: "y = (if 0 < x then ?w else - ?w)"
    by (simp_all add: round32_def Let_def split: if_splits)
  have n0: "0 \<le> ?n" by (rule round_half_even_ge) (use a u in simp)
  show ?thesis
  proof (cases "?n = 0")
    case True
    hence w0: "?w = 0" by simp
    have "y = 0" unfolding y w0 by simp
    thus ?thesis by (simp add: round32_def)
  next
    case nz: False
    hence w: "0 < ?w" using n0 u by (simp add: zero_less_mult_iff)
    have e1: "(2::real) powi (?e + 1) = 2 ^ 24 * ?u"
      using power_int_add[of "2::real" 24 "?e - 23"] by (simp add: algebra_simps)
    have e0: "(2::real) powi ?e = 2 ^ 23 * ?u"
      using power_int_add[of "2::real" 23 "?e - 23"] by (simp add: algebra_simps)
    have ge: "2 powi ?e \<le> ?a \<Longrightarrow> 2 powi ?e \<le> ?w"
    proof -
      assume "2 powi ?e \<le> ?a"
      hence "2 ^ 23 * ?u \<le> ?a" using e0 by simp
      hence "of_int (2 ^ 23) \<le> ?a / ?u" using u by (simp add: pos_le_divide_eq)
      hence "2 ^ 23 \<le> ?n" by (rule round_half_even_ge)
      hence "2 ^ 23 * ?u \<le> ?w" using u by (simp add: mult_right_mono flip: of_int_le_iff)
      thus ?thesis using e0 by simp
    qed
    have a128: "?a < 2 ^ 128"
    proof (rule ccontr)
      assume "\<not> ?a < 2 ^ 128"
      hence big: "2 ^ 128 \<le> ?a" by simp
      hence ex: "?e = 128" by (rule exponent_overflow)
      hence "2 powi ?e \<le> ?a" using big by simp
      hence "2 powi ?e \<le> ?w" by (rule ge)
      thus False using fin ex by simp
    qed
    have "?a < 2 ^ 24 * ?u" using s(3)[OF a128] e1 by simp
    hence "?a / ?u \<le> of_int (2 ^ 24)" using u by (simp add: pos_divide_le_eq)
    hence n24: "?n \<le> 2 ^ 24" by (rule round_half_even_le)
    have n23: "- 126 < ?e \<Longrightarrow> 2 ^ 23 \<le> ?n"
    proof -
      assume "- 126 < ?e"
      hence "2 powi ?e \<le> ?w" using s(4) ge by simp
      hence "2 ^ 23 * ?u \<le> ?w" using e0 by simp
      thus ?thesis using u by (simp flip: of_int_le_iff)
    qed
    obtain m where m: "?w = of_int m * 2 powi (exponent ?w - 23)"
      using grid_exponent[OF w fin refl s(1) n24 n23] by blast
    note r = round32_exact[OF w fin m]
    show ?thesis using y r by (cases "0 < x") simp_all
  qed
qed


subsection \<open>Facts about the operations\<close>

lemma round32_0 [simp]: "round32 0 = Fin 0"
  by (simp add: round32_def)

lemma fsub_1_1: "fsub (Fin 1) (Fin 1) = Fin 0"
  by (simp add: fsub_def)

lemma fmul_zero: "fmul v (Fin 0) = (if finite_f32 v then Fin 0 else NaN)"
  by (cases v) (simp_all add: finite_f32_def inf_times_def)

lemma fadd_zero: "round32 x = r \<Longrightarrow> fadd r (Fin 0) = r"
  by (cases r) (auto dest: round32_idem)

lemma fadd_NaN [simp]: "fadd r NaN = NaN"
  by (cases r) simp_all


section \<open>The claims about the target and the loss\<close>

text \<open>
  Claim C1. With \<open>double_dqn\<close> the bootstrap value of transition \<open>i\<close> is the target
  network's value on the next state at an action that maximises the train network's values
  on that next state; without it, it is the largest of the target network's values on the
  next state. Both networks return \<open>n\<close> rows of \<open>A > 0\<close> action values.
\<close>

theorem bootstrap_values_double_dqn:
  fixes net :: "'obs network"
  assumes tv: "tv = net (parameters target) (training target) obs"
    and mv: "mv = net (parameters train) (training train) obs"
    and tshape: "length tv = n" "\<forall>r\<in>set tv. length r = A"
    and mshape: "double_dqn s \<longrightarrow> length mv = n \<and> (\<forall>r\<in>set mv. length r = A)"
    and A: "0 < A"
  shows "\<exists>v. bootstrap_values net s train target obs = Inr v \<and> length (vals v) = n \<and>
           (\<forall>i<n. if double_dqn s
              then \<exists>a<A. (\<forall>j<A. mv ! i ! j \<le> mv ! i ! a) \<and> vals v ! i = tv ! i ! a
              else vals v ! i = Max (set (tv ! i)))"
proof -
  let ?v = "\<lparr>vals = map (\<lambda>i. bootstrap_of (double_dqn s) (tv ! i) (mv ! i)) [0..<n], requires_grad = False\<rparr>"
  have b: "bootstrap_values net s train target obs = Inr ?v"
    using assms by (rule bootstrap_values_closed)
  have "\<exists>a<A. (\<forall>j<A. mv ! i ! j \<le> mv ! i ! a) \<and> vals ?v ! i = tv ! i ! a"
    if dd: "double_dqn s" and i: "i < n" for i
  proof -
    have "mv ! i \<in> set mv" using dd i mshape by auto
    then have r: "mv ! i \<noteq> []" "length (mv ! i) = A" using dd mshape A by auto
    have "first_argmax (mv ! i) < A \<and> (\<forall>j<A. mv ! i ! j \<le> mv ! i ! first_argmax (mv ! i))
        \<and> vals ?v ! i = tv ! i ! first_argmax (mv ! i)"
      using first_argmax_spec(1,2)[OF r(1)] r(2) i dd by (simp add: bootstrap_of_def)
    then show ?thesis by blast
  qed
  moreover have "vals ?v ! i = Max (set (tv ! i))" if "\<not> double_dqn s" "i < n" for i
    using that by (simp add: bootstrap_of_def)
  ultimately show ?thesis using b by auto
qed

theorem bootstrap_values_double_dqn_witness:
  "\<exists>v. bootstrap_values tabular_net ex_settings ex_train ex_target [1, 0] = Inr v
     \<and> length (vals v) = 2 \<and> vals v = [3, 2] \<and> vals v \<noteq> [4, 7]"
proof -
  have d: "double_dqn ex_settings" by (simp add: ex_settings_def)
  have "\<exists>v. bootstrap_values tabular_net ex_settings ex_train ex_target [1, 0] = Inr v \<and> length (vals v) = 2 \<and>
           (\<forall>i<2. if double_dqn ex_settings
              then \<exists>a<2. (\<forall>j<2. [[0, 0], [1, 5 :: real]] ! i ! j \<le> [[0, 0], [1, 5]] ! i ! a)
                     \<and> vals v ! i = [[3, 4], [7, 2]] ! i ! a
              else vals v ! i = Max (set ([[3, 4], [7, 2]] ! i)))"
    by (rule bootstrap_values_double_dqn[where tv = "[[3, 4], [7, 2]]" and mv = "[[0, 0], [1, 5]]" and A = 2])
       (simp_all add: ex_target_values ex_model_values del: One_nat_def)
  then obtain v where v: "bootstrap_values tabular_net ex_settings ex_train ex_target [1, 0] = Inr v"
    "length (vals v) = 2" by blast
  then have "vals v = [3, 2]" by (auto simp: ex_bootstrap_double simp del: One_nat_def)
  then show ?thesis using v by simp
qed


text \<open>
  A terminal transition of the example whose bootstrap value is infinite: the target is
  nan, not the reward \<open>- 1 / 2\<close>.
\<close>

theorem expected_q_terminal_nan_counterexample:
  "expected_q_f32 ex_settings ex_sample [Fin 3, PInf] = Inr [Fin (5 / 2), NaN]
   \<and> dones ex_sample = [False, True]
   \<and> map round32 (rewards ex_sample) = [Fin 1, Fin (- 1 / 2)]"
  by code_simp

text \<open>
  Claim C2, amended. The target of transition \<open>i\<close> is the float32 value of
  \<open>reward + discount_factor * bootstrap * (1 - done)\<close>, for any bootstrap values
  \<open>values\<close> the networks produced. For a terminal transition it is the reward when the
  float32 product \<open>discount_factor * bootstrap\<close> is finite, and nan when that product is
  an infinity or nan.
\<close>

theorem expected_q_f32_terminal:
  assumes len: "length (rewards bs) = n" "length (dones bs) = n" "length values = n"
    and i: "i < n"
  shows "\<exists>e. expected_q_f32 s bs values = Inr e \<and> length e = n
     \<and> e ! i = fadd (round32 (rewards bs ! i))
                 (fmul (fmul (round32 (discount_factor s)) (values ! i))
                       (fsub (Fin 1) (if dones bs ! i then Fin 1 else Fin 0)))
     \<and> (dones bs ! i \<longrightarrow>
          e ! i = (if finite_f32 (fmul (round32 (discount_factor s)) (values ! i))
                   then round32 (rewards bs ! i) else NaN))"
proof -
  let ?g = "round32 (discount_factor s)"
  let ?b = "map2 fmul (map (fmul ?g) values) (map (\<lambda>d. fsub (Fin 1) (if d then Fin 1 else Fin 0)) (dones bs))"
  let ?e = "map2 fadd (map round32 (rewards bs)) ?b"
  have e: "expected_q_f32 s bs values = Inr ?e"
    using len by (simp add: expected_q_f32_def broadcast2_def)
  have l: "length ?e = n" using len by simp
  have v: "?e ! i = fadd (round32 (rewards bs ! i))
                 (fmul (fmul ?g (values ! i)) (fsub (Fin 1) (if dones bs ! i then Fin 1 else Fin 0)))"
    using len i by simp
  have d: "dones bs ! i \<longrightarrow> ?e ! i = (if finite_f32 (fmul ?g (values ! i)) then round32 (rewards bs ! i) else NaN)"
    unfolding v by (simp add: fsub_1_1 fmul_zero fadd_zero)
  show ?thesis using e l v d by blast
qed

theorem expected_q_f32_terminal_witness:
  "length (rewards ex_sample) = 2 \<and> length (dones ex_sample) = 2 \<and> dones ex_sample ! 1
   \<and> finite_f32 (fmul (round32 (discount_factor ex_settings)) ([Fin 3, Fin 2] ! 1))
   \<and> (\<exists>e. expected_q_f32 ex_settings ex_sample [Fin 3, Fin 2] = Inr e \<and> length e = 2
          \<and> e ! 1 = round32 (rewards ex_sample ! 1))
   \<and> round32 (rewards ex_sample ! 1) = Fin (- 1 / 2)"
proof -
  have l: "length (rewards ex_sample) = 2" "length (dones ex_sample) = 2" "length [Fin 3, Fin 2] = 2"
    by (simp_all add: ex_sample_def)
  have d: "dones ex_sample ! 1" by (simp add: ex_sample_def)
  have f: "finite_f32 (fmul (round32 (discount_factor ex_settings)) ([Fin 3, Fin 2] ! 1))"
    by code_simp
  have r: "round32 (rewards ex_sample ! 1) = Fin (- 1 / 2)" by code_simp
  from expected_q_f32_terminal[OF l, of 1 ex_settings] d f
  have "\<exists>e. expected_q_f32 ex_settings ex_sample [Fin 3, Fin 2] = Inr e \<and> length e = 2
          \<and> e ! 1 = round32 (rewards ex_sample ! 1)"
    by auto
  then show ?thesis using l d f r by blast
qed





section \<open>Collaborators and state of the reinforcer\<close>

text \<open>
  Modelled from the spec: \<open>EpochInfo\<close> and \<open>BatchInfo\<close> (module \<open>vel.api\<close>) are not
  among the sources. An epoch context carries the callback list, the number of batches,
  the optimizer handle and the result accumulator; a batch context refers to its epoch
  context (the optimizer and the callbacks are reached through it) and carries a mutable
  key-value scratch map.
\<close>

datatype 'ei scratch = Scalar real | Frames nat | EpisodeInfos "'ei list"

record ('o, 'cb, 'acc) epoch_info =
  callbacks :: "'cb list"
  batches_per_epoch :: int
  optimizer :: 'o
  result_accumulator :: 'acc

record ('o, 'cb, 'acc, 'ei) batch_info =
  epoch_info :: "('o, 'cb, 'acc) epoch_info"
  batch_number :: nat
  data :: "string \<rightharpoonup> 'ei scratch"

text \<open>
  The calls the reinforcer makes on its collaborators, in program order. The log is not a
  variable of the source: the model appends one event at each call, so that the order and
  the number of the calls can be stated.
\<close>

datatype ('obs, 'cb) event =
    OnEpochBegin 'cb | OnBatchBegin 'cb nat | OnBatchEnd 'cb nat | OnEpochEnd 'cb
  | Calculate nat | FreezeResults | FreezeEpochResult
  | ModelEval | TargetEval | Rollout | ModelTrain | ZeroGrad | Sample int
  | Backward | Update "'obs batch_sample" "real list" | ClipGradNorm real | OptimizerStep

record ('obs, 'cb, 'r) reinforcer =
  train_model :: model
  target_model :: model
  env_roller :: 'r
  log :: "('obs, 'cb) event list"

text \<open>
  Modelled from the spec: the collaborators' classes (\<open>Model\<close>, \<open>ReplayEnvRollerBase\<close>,
  the optimizer, the callbacks and the result accumulator) are not among the sources.
  Their methods are functions on the collaborator's state: \<open>'r\<close> is the state of the
  env-roller (environment and replay buffer), \<open>'o\<close> of the optimizer, \<open>'acc\<close> of the
  result accumulator; \<open>'cb\<close> is a callback and \<open>'ei\<close> an episode record.
  \<open>autograd m bs e k\<close> is the gradient of the scalar loss with respect to parameter \<open>k\<close>
  of the train model \<open>m\<close>, for the sample \<open>bs\<close> and the constant targets \<open>e\<close>
  (\<open>None\<close> when the loss does not depend on the parameter). The optimizer is the one built
  over the train model's parameters.
\<close>

record ('obs, 'r, 'o, 'cb, 'acc, 'ei) collaborators =
  net :: "'obs network"
  reset_weights :: "param list \<Rightarrow> param list"
  is_ready_for_sampling :: "'r \<Rightarrow> bool"
  rollout :: "('o, 'cb, 'acc, 'ei) batch_info \<Rightarrow> model \<Rightarrow> 'r \<Rightarrow> 'ei option \<times> 'r"
  sample :: "('o, 'cb, 'acc, 'ei) batch_info \<Rightarrow> int \<Rightarrow> model \<Rightarrow> 'r \<Rightarrow> 'obs batch_sample \<times> 'r"
  update :: "'obs batch_sample \<Rightarrow> real list \<Rightarrow> 'r \<Rightarrow> 'r"
  autograd :: "model \<Rightarrow> 'obs batch_sample \<Rightarrow> real list \<Rightarrow> nat \<Rightarrow> real list option"
  step :: "'o \<Rightarrow> param list \<Rightarrow> 'o \<times> param list"
  on_epoch_begin :: "'cb \<Rightarrow> ('o, 'cb, 'acc) epoch_info \<Rightarrow> ('o, 'cb, 'acc) epoch_info"
  on_batch_begin :: "'cb \<Rightarrow> ('o, 'cb, 'acc, 'ei) batch_info \<Rightarrow> ('o, 'cb, 'acc, 'ei) batch_info"
  on_batch_end :: "'cb \<Rightarrow> ('o, 'cb, 'acc, 'ei) batch_info \<Rightarrow> ('o, 'cb, 'acc, 'ei) batch_info"
  on_epoch_end :: "'cb \<Rightarrow> ('o, 'cb, 'acc) epoch_info \<Rightarrow> ('o, 'cb, 'acc) epoch_info"
  calculate :: "'acc \<Rightarrow> ('o, 'cb, 'acc, 'ei) batch_info \<Rightarrow> 'acc"
  freeze_results :: "'acc \<Rightarrow> 'acc"
  freeze_epoch_result :: "('o, 'cb, 'acc) epoch_info \<Rightarrow> ('o, 'cb, 'acc) epoch_info"

section \<open>Library calls on parameters\<close>

text \<open>\<open>state_dict()\<close>: the parameters' values, by position.\<close>

definition state_dict :: "model \<Rightarrow> real list list" where
  "state_dict m = map vals (parameters m)"

text \<open>
  \<open>load_state_dict(sd)\<close> copies the values into the parameters; it raises when an entry
  is missing, unexpected or of another shape.
\<close>

definition load_state_dict :: "model \<Rightarrow> real list list \<Rightarrow> error + model" where
  "load_state_dict m sd =
     (if length sd = length (parameters m)
         \<and> list_all2 (\<lambda>p v. length (vals p) = length v) (parameters m) sd
      then Inr (m\<lparr>parameters := map2 (\<lambda>p v. p\<lparr>vals := v\<rparr>) (parameters m) sd\<rparr>)
      else Inl ShapeError)"

text \<open>\<open>optimizer.zero_grad()\<close>: every gradient that exists is set to zero.\<close>

definition zero_grad :: "param list \<Rightarrow> param list" where
  "zero_grad ps = map (\<lambda>p. p\<lparr>grad := map_option (map (\<lambda>_. 0)) (grad p)\<rparr>) ps"

text \<open>\<open>loss.backward()\<close>: raises when the loss is not part of the graph; otherwise the
  gradient of each parameter that requires one is accumulated into \<open>p.grad\<close>.\<close>

definition accumulate :: "param \<Rightarrow> real list option \<Rightarrow> param" where
  "accumulate p g =
     (case g of
        None \<Rightarrow> p
      | Some g \<Rightarrow>
          if requires_grad p
          then p\<lparr>grad := Some (case grad p of None \<Rightarrow> g | Some old \<Rightarrow> map2 (+) old g)\<rparr>
          else p)"

definition backward :: "real tensor \<Rightarrow> param list \<Rightarrow> (nat \<Rightarrow> real list option) \<Rightarrow> error + param list" where
  "backward L ps g =
     (if requires_grad L then Inr (map (\<lambda>k. accumulate (ps ! k) (g k)) [0..<length ps])
      else Inl GradError)"

text \<open>\<open>t.detach().cpu().numpy()\<close>; \<open>numpy()\<close> raises on a tensor that requires a gradient.\<close>

definition to_numpy :: "'a tensor \<Rightarrow> error + 'a" where
  "to_numpy t = (if requires_grad t then Inl GradError else Inr (vals t))"

text \<open>
  \<open>torch.nn.utils.clip_grad_norm_(filter(sel, parameters), max_norm)\<close>: the norm is taken
  over the gradients of the selected parameters that have one; when
  \<open>max_norm / (total_norm + 1e-6) < 1\<close> these gradients are scaled by that coefficient in
  place. The norm before scaling is returned.
\<close>

definition grad_sq :: "param \<Rightarrow> real" where
  "grad_sq p = (case grad p of None \<Rightarrow> 0 | Some g \<Rightarrow> sum_list (map (\<lambda>x. x\<^sup>2) g))"

definition total_norm :: "(param \<Rightarrow> bool) \<Rightarrow> param list \<Rightarrow> real" where
  "total_norm sel ps = sqrt (sum_list (map grad_sq (filter sel ps)))"

definition scale_grad :: "real \<Rightarrow> param \<Rightarrow> param" where
  "scale_grad c p = p\<lparr>grad := map_option (map (\<lambda>x. x * c)) (grad p)\<rparr>"

definition clip_grad_norm :: "(param \<Rightarrow> bool) \<Rightarrow> param list \<Rightarrow> real \<Rightarrow> param list \<times> real" where
  "clip_grad_norm sel ps max_norm =
     (let norm = total_norm sel ps;
          clip_coef = max_norm / (norm + 1 / 1000000)
      in (if clip_coef < 1 then map (\<lambda>p. if sel p then scale_grad clip_coef p else p) ps else ps,
          norm))"


section \<open>The reinforcer\<close>

subsection \<open>\<open>initialize_training\<close>\<close>

definition initialize_training :: "('obs, 'r, 'o, 'cb, 'acc, 'ei) collaborators
    \<Rightarrow> ('obs, 'cb, 'r) reinforcer \<Rightarrow> error + ('obs, 'cb, 'r) reinforcer" where
  "initialize_training X rf =
     (let train = (train_model rf)\<lparr>parameters := reset_weights X (parameters (train_model rf))\<rparr>
      in ebind (load_state_dict (target_model rf) (state_dict train))
           (\<lambda>target. Inr (rf\<lparr>train_model := train, target_model := target\<rparr>)))"

subsection \<open>The rollout phase of \<open>train_batch\<close> (lines 112 to 130)\<close>

text \<open>
  The loop state: the env-roller, \<open>episode_information\<close>, \<open>frames\<close> and the log. One
  step is the body shared by the two loops.
\<close>

type_synonym ('obs, 'cb, 'r, 'ei) rollout_state = "'r \<times> 'ei list \<times> nat \<times> ('obs, 'cb) event list"

definition rollout_step :: "('obs, 'r, 'o, 'cb, 'acc, 'ei) collaborators \<Rightarrow> ('o, 'cb, 'acc, 'ei) batch_info
    \<Rightarrow> model \<Rightarrow> ('obs, 'cb, 'r, 'ei) rollout_state \<Rightarrow> ('obs, 'cb, 'r, 'ei) rollout_state" where
  "rollout_step X bi m st =
     (case st of (roller, episode_information, frames, lg) \<Rightarrow>
        (case rollout X bi m roller of (maybe_episode_info, roller') \<Rightarrow>
           (roller',
            (case maybe_episode_info of
               None \<Rightarrow> episode_information
             | Some ei \<Rightarrow> episode_information @ [ei]),
            frames + 1,
            lg @ [Rollout])))"

text \<open>\<open>while not self.env_roller.is_ready_for_sampling(): ...\<close>; it may run forever.\<close>

partial_function (option) warm_up :: "('obs, 'r, 'o, 'cb, 'acc, 'ei) collaborators
    \<Rightarrow> ('o, 'cb, 'acc, 'ei) batch_info \<Rightarrow> model \<Rightarrow> ('obs, 'cb, 'r, 'ei) rollout_state
    \<Rightarrow> ('obs, 'cb, 'r, 'ei) rollout_state option" where
  "warm_up X bi m st =
     (if is_ready_for_sampling X (fst st) then Some st
      else warm_up X bi m (rollout_step X bi m st))"

text \<open>\<open>for i in range(k): ...\<close>\<close>

fun rollout_for :: "('obs, 'r, 'o, 'cb, 'acc, 'ei) collaborators \<Rightarrow> ('o, 'cb, 'acc, 'ei) batch_info
    \<Rightarrow> model \<Rightarrow> nat \<Rightarrow> ('obs, 'cb, 'r, 'ei) rollout_state \<Rightarrow> ('obs, 'cb, 'r, 'ei) rollout_state" where
  "rollout_for X bi m 0 st = st"
| "rollout_for X bi m (Suc k) st = rollout_for X bi m k (rollout_step X bi m st)"

definition rollout_phase :: "('obs, 'r, 'o, 'cb, 'acc, 'ei) collaborators \<Rightarrow> settings
    \<Rightarrow> ('o, 'cb, 'acc, 'ei) batch_info \<Rightarrow> model \<Rightarrow> ('obs, 'cb, 'r, 'ei) rollout_state
    \<Rightarrow> ('obs, 'cb, 'r, 'ei) rollout_state option" where
  "rollout_phase X s bi m st =
     (if \<not> is_ready_for_sampling X (fst st) then warm_up X bi m st
      else Some (rollout_for X bi m (nat (train_frequency s)) st))"

subsection \<open>Experience replay and the gradient step (lines 133 to 180)\<close>

text \<open>Lines 169 to 175: \<open>if self.settings.max_grad_norm is not None: ...\<close>\<close>

definition clip_phase :: "settings \<Rightarrow> model \<Rightarrow> ('o, 'cb, 'acc, 'ei) batch_info \<Rightarrow> ('obs, 'cb) event list
    \<Rightarrow> model \<times> ('o, 'cb, 'acc, 'ei) batch_info \<times> ('obs, 'cb) event list" where
  "clip_phase s train bi lg =
     (case max_grad_norm s of
        None \<Rightarrow> (train, bi, lg)
      | Some max_norm \<Rightarrow>
          (case clip_grad_norm requires_grad (parameters train) max_norm of
             (ps, grad_norm) \<Rightarrow>
               (train\<lparr>parameters := ps\<rparr>,
                bi\<lparr>data := (data bi)(''grad_norm'' \<mapsto> Scalar grad_norm)\<rparr>,
                lg @ [ClipGradNorm max_norm])))"

definition replay_phase :: "('obs, 'r, 'o, 'cb, 'acc, 'ei) collaborators \<Rightarrow> settings
    \<Rightarrow> ('obs, 'cb, 'r) reinforcer \<Rightarrow> ('o, 'cb, 'acc, 'ei) batch_info \<Rightarrow> ('obs, 'cb, 'r, 'ei) rollout_state
    \<Rightarrow> error + ('obs, 'cb, 'r) reinforcer \<times> ('o, 'cb, 'acc, 'ei) batch_info" where
  "replay_phase X s rf bi st =
     (case st of (roller, episode_information, frames, lg) \<Rightarrow>
      let train = (train_model rf)\<lparr>training := True\<rparr>;
          lg = lg @ [ModelTrain];
          train = train\<lparr>parameters := zero_grad (parameters train)\<rparr>;
          lg = lg @ [ZeroGrad];
          (batch_sample, roller) = sample X bi (batch_size s) train roller;
          lg = lg @ [Sample (batch_size s)]
      in
      ebind (expected_q (net X) s train (target_model rf) batch_sample) (\<lambda>e.
      ebind (original_losses (net X) s train (target_model rf) batch_sample) (\<lambda>losses.
      ebind (loss batch_sample losses) (\<lambda>L.
      ebind (backward L (parameters train) (autograd X train batch_sample (vals (detach e)))) (\<lambda>ps.
      ebind (to_numpy (detach losses)) (\<lambda>loss_values.
      let train = train\<lparr>parameters := ps\<rparr>;
          lg = lg @ [Backward];
          roller = update X batch_sample loss_values roller;
          lg = lg @ [Update batch_sample loss_values];
          (train, bi, lg) = clip_phase s train bi lg;
          (opt, ps) = step X (optimizer (epoch_info bi)) (parameters train);
          lg = lg @ [OptimizerStep];
          bi = bi\<lparr>epoch_info := (epoch_info bi)\<lparr>optimizer := opt\<rparr>\<rparr>;
          bi = bi\<lparr>data := (data bi)(''frames'' \<mapsto> Frames frames)\<rparr>;
          bi = bi\<lparr>data := (data bi)(''episode_infos'' \<mapsto> EpisodeInfos episode_information)\<rparr>
      in Inr (rf\<lparr>train_model := train\<lparr>parameters := ps\<rparr>, env_roller := roller, log := lg\<rparr>, bi)))))))"

subsection \<open>\<open>train_batch\<close>\<close>

definition lookup_progress :: "('o, 'cb, 'acc, 'ei) batch_info \<Rightarrow> error + real" where
  "lookup_progress bi =
     (case data bi ''progress'' of
        None \<Rightarrow> Inl KeyError
      | Some (Scalar p) \<Rightarrow> Inr p
      | Some _ \<Rightarrow> Inl TypeError)"

text \<open>The result is \<open>None\<close> when the call does not return.\<close>

definition train_batch :: "('obs, 'r, 'o, 'cb, 'acc, 'ei) collaborators \<Rightarrow> settings
    \<Rightarrow> ('obs, 'cb, 'r) reinforcer \<Rightarrow> ('o, 'cb, 'acc, 'ei) batch_info
    \<Rightarrow> (error + ('obs, 'cb, 'r) reinforcer \<times> ('o, 'cb, 'acc, 'ei) batch_info) option" where
  "train_batch X s rf bi =
     (let rf = rf\<lparr>train_model := (train_model rf)\<lparr>training := False\<rparr>, log := log rf @ [ModelEval]\<rparr>;
          rf = rf\<lparr>target_model := (target_model rf)\<lparr>training := False\<rparr>, log := log rf @ [TargetEval]\<rparr>
      in case lookup_progress bi of
           Inl e \<Rightarrow> Some (Inl e)
         | Inr progress \<Rightarrow>
             (let bi = bi\<lparr>data := (data bi)(''epsilon_value'' \<mapsto> Scalar (epsilon_schedule s progress))\<rparr>
              in map_option (replay_phase X s rf bi)
                   (rollout_phase X s bi (train_model rf) (env_roller rf, [], 0, log rf))))"


subsection \<open>\<open>train_epoch\<close>\<close>

text \<open>
  \<open>for callback in callbacks: callback.hook(info)\<close>, over the callback list as it is when
  the loop starts. \<open>ev\<close> is the event logged for a call.
\<close>

fun run_hooks :: "('cb \<Rightarrow> 'i \<Rightarrow> 'i) \<Rightarrow> ('cb \<Rightarrow> ('obs, 'cb) event) \<Rightarrow> 'cb list
    \<Rightarrow> 'i \<times> ('obs, 'cb) event list \<Rightarrow> 'i \<times> ('obs, 'cb) event list" where
  "run_hooks hook ev [] st = st"
| "run_hooks hook ev (cb # cbs) (info, lg) = run_hooks hook ev cbs (hook cb info, lg @ [ev cb])"

text \<open>Modelled from the spec: \<open>BatchInfo(epoch_info, batch_idx)\<close> starts with an empty scratch map.\<close>

definition new_batch_info :: "('o, 'cb, 'acc) epoch_info \<Rightarrow> nat \<Rightarrow> ('o, 'cb, 'acc, 'ei) batch_info" where
  "new_batch_info ei batch_idx = \<lparr>epoch_info = ei, batch_number = batch_idx, data = Map.empty\<rparr>"

text \<open>The body of the loop over the batches (lines 82 to 92).\<close>

definition epoch_batch :: "('obs, 'r, 'o, 'cb, 'acc, 'ei) collaborators \<Rightarrow> settings \<Rightarrow> nat
    \<Rightarrow> ('obs, 'cb, 'r) reinforcer \<times> ('o, 'cb, 'acc) epoch_info
    \<Rightarrow> (error + ('obs, 'cb, 'r) reinforcer \<times> ('o, 'cb, 'acc) epoch_info) option" where
  "epoch_batch X s batch_idx st =
     (case st of (rf, ei) \<Rightarrow>
      let batch_info = new_batch_info ei batch_idx;
          (batch_info, lg) = run_hooks (on_batch_begin X) (\<lambda>cb. OnBatchBegin cb batch_idx)
                               (callbacks (epoch_info batch_info)) (batch_info, log rf)
      in case train_batch X s (rf\<lparr>log := lg\<rparr>) batch_info of
           None \<Rightarrow> None
         | Some (Inl e) \<Rightarrow> Some (Inl e)
         | Some (Inr (rf, batch_info)) \<Rightarrow>
             (let (batch_info, lg) = run_hooks (on_batch_end X) (\<lambda>cb. OnBatchEnd cb batch_idx)
                                       (callbacks (epoch_info batch_info)) (batch_info, log rf);
                  ei = epoch_info batch_info;
                  ei = ei\<lparr>result_accumulator := calculate X (result_accumulator ei) batch_info\<rparr>;
                  lg = lg @ [Calculate batch_idx]
              in Some (Inr (rf\<lparr>log := lg\<rparr>, ei))))"

fun train_batches :: "('obs, 'r, 'o, 'cb, 'acc, 'ei) collaborators \<Rightarrow> settings \<Rightarrow> nat list
    \<Rightarrow> ('obs, 'cb, 'r) reinforcer \<times> ('o, 'cb, 'acc) epoch_info
    \<Rightarrow> (error + ('obs, 'cb, 'r) reinforcer \<times> ('o, 'cb, 'acc) epoch_info) option" where
  "train_batches X s [] st = Some (Inr st)"
| "train_batches X s (batch_idx # rest) st =
     (case epoch_batch X s batch_idx st of
        None \<Rightarrow> None
      | Some (Inl e) \<Rightarrow> Some (Inl e)
      | Some (Inr st') \<Rightarrow> train_batches X s rest st')"

definition train_epoch :: "('obs, 'r, 'o, 'cb, 'acc, 'ei) collaborators \<Rightarrow> settings
    \<Rightarrow> ('obs, 'cb, 'r) reinforcer \<Rightarrow> ('o, 'cb, 'acc) epoch_info
    \<Rightarrow> (error + ('obs, 'cb, 'r) reinforcer \<times> ('o, 'cb, 'acc) epoch_info) option" where
  "train_epoch X s rf ei =
     (let (ei, lg) = run_hooks (on_epoch_begin X) OnEpochBegin (callbacks ei) (ei, log rf)
      in case train_batches X s [0..<nat (batches_per_epoch ei)] (rf\<lparr>log := lg\<rparr>, ei) of
           None \<Rightarrow> None
         | Some (Inl e) \<Rightarrow> Some (Inl e)
         | Some (Inr (rf, ei)) \<Rightarrow>
             (let ei = ei\<lparr>result_accumulator := freeze_results X (result_accumulator ei)\<rparr>;
                  lg = log rf @ [FreezeResults];
                  ei = freeze_epoch_result X ei;
                  lg = lg @ [FreezeEpochResult];
                  (ei, lg) = run_hooks (on_epoch_end X) OnEpochEnd (callbacks ei) (ei, lg)
              in Some (Inr (rf\<lparr>log := lg\<rparr>, ei))))"

subsection \<open>Construction: the settings, the factory and the reinforcer\<close>

text \<open>
  The attribute class generates a constructor that stores its arguments; \<open>create\<close>,
  \<open>DqnReinforcerFactory.__init__\<close> and \<open>DqnReinforcer.__init__\<close> store theirs. None of
  them has a branch that raises; the result type has the error case so that a rejection
  could be expressed.
\<close>

definition DqnReinforcerSettings :: "(real \<Rightarrow> real) \<Rightarrow> int \<Rightarrow> int \<Rightarrow> bool \<Rightarrow> int \<Rightarrow> real \<Rightarrow> real option
    \<Rightarrow> error + settings" where
  "DqnReinforcerSettings eps tf bsz dd tuf df mgn =
     Inr \<lparr>epsilon_schedule = eps, train_frequency = tf, batch_size = bsz, double_dqn = dd,
          target_update_frequency = tuf, discount_factor = df, max_grad_norm = mgn\<rparr>"

record ('env, 'r) factory =
  f_settings :: settings
  env_factory :: "int \<Rightarrow> 'env"
  model_factory :: "'env \<Rightarrow> model"
  env_roller_factory :: "'env \<Rightarrow> settings \<Rightarrow> 'r"
  seed :: int

definition create :: "int \<Rightarrow> ('env \<Rightarrow> model) \<Rightarrow> (int \<Rightarrow> 'env) \<Rightarrow> ('env \<Rightarrow> settings \<Rightarrow> 'r)
    \<Rightarrow> (real \<Rightarrow> real) \<Rightarrow> int \<Rightarrow> int \<Rightarrow> int \<Rightarrow> real \<Rightarrow> real option \<Rightarrow> bool
    \<Rightarrow> error + ('env, 'r) factory" where
  "create model_config_seed modelf envf rollerf eps tf bsz tuf df mgn dd =
     ebind (DqnReinforcerSettings eps tf bsz dd tuf df mgn) (\<lambda>st.
       Inr \<lparr>f_settings = st, env_factory = envf, model_factory = modelf,
            env_roller_factory = rollerf, seed = model_config_seed\<rparr>)"

definition instantiate :: "('env, 'r) factory \<Rightarrow> error + settings \<times> ('obs, 'cb, 'r) reinforcer" where
  "instantiate f =
     (let env = env_factory f (seed f);
          roller = env_roller_factory f env (f_settings f);
          train = model_factory f env;
          target = model_factory f env
      in Inr (f_settings f,
              \<lparr>train_model = train, target_model = target, env_roller = roller, log = []\<rparr>))"


section \<open>Facts about the rollout phase\<close>

lemma rollout_step_shape:
  "\<exists>r' eis'. rollout_step X bi m (r, eis, f, lg) = (r', eis', Suc f, lg @ [Rollout])"
  by (simp add: rollout_step_def split: prod.splits)

lemma rollout_for_Suc: "rollout_for X bi m (Suc k) st = rollout_step X bi m (rollout_for X bi m k st)"
  by (induction k arbitrary: st) simp_all

lemma rollout_for_shape:
  "\<exists>r' eis'. rollout_for X bi m k (r, eis, f, lg) = (r', eis', f + k, lg @ replicate k Rollout)"
proof (induction k)
  case 0
  show ?case by simp
next
  case (Suc k)
  then obtain r' eis' where "rollout_for X bi m k (r, eis, f, lg) = (r', eis', f + k, lg @ replicate k Rollout)"
    by blast
  then show ?case
    using rollout_step_shape[of X bi m r' eis' "f + k" "lg @ replicate k Rollout"]
    by (auto simp: rollout_for_Suc replicate_append_same simp del: rollout_for.simps)
qed

lemma warm_up_terminates:
  assumes "is_ready_for_sampling X (fst (rollout_for X bi m k st))"
    and "\<forall>j<k. \<not> is_ready_for_sampling X (fst (rollout_for X bi m j st))"
  shows "warm_up X bi m st = Some (rollout_for X bi m k st)"
  using assms
proof (induction k arbitrary: st)
  case 0
  then show ?case by (simp add: warm_up.simps)
next
  case (Suc k)
  have "\<not> is_ready_for_sampling X (fst (rollout_for X bi m 0 st))" using Suc.prems(2) by blast
  then have nr: "\<not> is_ready_for_sampling X (fst st)" by simp
  have "\<forall>j<k. \<not> is_ready_for_sampling X (fst (rollout_for X bi m j (rollout_step X bi m st)))"
  proof (intro allI impI)
    fix j assume "j < k"
    then have "Suc j < Suc k" by simp
    then have "\<not> is_ready_for_sampling X (fst (rollout_for X bi m (Suc j) st))" using Suc.prems(2) by blast
    then show "\<not> is_ready_for_sampling X (fst (rollout_for X bi m j (rollout_step X bi m st)))" by simp
  qed
  moreover have "is_ready_for_sampling X (fst (rollout_for X bi m k (rollout_step X bi m st)))"
    using Suc.prems(1) by simp
  ultimately have "warm_up X bi m (rollout_step X bi m st) = Some (rollout_for X bi m k (rollout_step X bi m st))"
    by (rule Suc.IH[rotated])
  then show ?case using nr by (subst warm_up.simps) simp
qed

lemma warm_up_Some:
  assumes "warm_up X bi m st = Some st'"
  shows "\<exists>k. st' = rollout_for X bi m k st \<and> is_ready_for_sampling X (fst (rollout_for X bi m k st))"
proof (rule warm_up.raw_induct[where P = "\<lambda>X bi m st st'.
    \<exists>k. st' = rollout_for X bi m k st \<and> is_ready_for_sampling X (fst (rollout_for X bi m k st))",
    OF _ assms])
  fix f Y b n a r
  assume IH: "\<And>Y b n a r. f Y b n a = Some r \<Longrightarrow>
      \<exists>k. r = rollout_for Y b n k a \<and> is_ready_for_sampling Y (fst (rollout_for Y b n k a))"
    and eq: "(if is_ready_for_sampling Y (fst a) then Some a else f Y b n (rollout_step Y b n a)) = Some r"
  show "\<exists>k. r = rollout_for Y b n k a \<and> is_ready_for_sampling Y (fst (rollout_for Y b n k a))"
  proof (cases "is_ready_for_sampling Y (fst a)")
    case True
    then have "r = rollout_for Y b n 0 a \<and> is_ready_for_sampling Y (fst (rollout_for Y b n 0 a))"
      using eq by simp
    then show ?thesis by blast
  next
    case False
    then have "f Y b n (rollout_step Y b n a) = Some r" using eq by simp
    from IH[OF this] obtain k where
      "r = rollout_for Y b n k (rollout_step Y b n a)"
      "is_ready_for_sampling Y (fst (rollout_for Y b n k (rollout_step Y b n a)))" by blast
    then have "r = rollout_for Y b n (Suc k) a \<and> is_ready_for_sampling Y (fst (rollout_for Y b n (Suc k) a))"
      by simp
    then show ?thesis by blast
  qed
qed

lemma warm_up_diverges:
  assumes "\<forall>j. \<not> is_ready_for_sampling X (fst (rollout_for X bi m j st))"
  shows "warm_up X bi m st = None"
proof (cases "warm_up X bi m st")
  case None
  then show ?thesis .
next
  case (Some st')
  from warm_up_Some[OF this] assms show ?thesis by blast
qed


section \<open>Facts about the replay phase\<close>

text \<open>The train model as the replay phase uses it: in training mode, gradients zeroed.\<close>

definition replay_model :: "model \<Rightarrow> model" where
  "replay_model m = m\<lparr>training := True, parameters := zero_grad (parameters m)\<rparr>"


lemma replay_phase_eq:
  assumes "sample X bi (batch_size s) (replay_model (train_model rf)) r = (bs, r2)"
    and "expected_q (net X) s (replay_model (train_model rf)) (target_model rf) bs = Inr e"
    and "original_losses (net X) s (replay_model (train_model rf)) (target_model rf) bs = Inr ol"
    and "loss bs ol = Inr L" and "requires_grad L"
    and "clip_phase s ((replay_model (train_model rf))\<lparr>parameters :=
            map (\<lambda>k. accumulate (parameters (replay_model (train_model rf)) ! k)
                       (autograd X (replay_model (train_model rf)) bs (vals e) k))
                [0..<length (parameters (replay_model (train_model rf)))]\<rparr>) bi
          (lg @ [ModelTrain, ZeroGrad, Sample (batch_size s), Backward, Update bs (vals ol)])
         = (train3, bi3, lg3)"
    and "step X (optimizer (epoch_info bi3)) (parameters train3) = (opt, ps)"
  shows "replay_phase X s rf bi (r, eis, k, lg) =
     Inr (rf\<lparr>train_model := train3\<lparr>parameters := ps\<rparr>, env_roller := update X bs (vals ol) r2,
             log := lg3 @ [OptimizerStep]\<rparr>,
          bi3\<lparr>epoch_info := (epoch_info bi3)\<lparr>optimizer := opt\<rparr>,
              data := (data bi3)(''frames'' \<mapsto> Frames k, ''episode_infos'' \<mapsto> EpisodeInfos eis)\<rparr>)"
  using assms
  by (simp add: replay_phase_def replay_model_def Let_def backward_def to_numpy_def detach_def)

lemma replay_phase_Inr:
  assumes "replay_phase X s rf bi (r, eis, k, lg) = Inr (rf', bi')"
  shows "\<exists>bs r2 e ol L train3 bi3 lg3 opt ps.
      sample X bi (batch_size s) (replay_model (train_model rf)) r = (bs, r2)
    \<and> expected_q (net X) s (replay_model (train_model rf)) (target_model rf) bs = Inr e
    \<and> original_losses (net X) s (replay_model (train_model rf)) (target_model rf) bs = Inr ol
    \<and> loss bs ol = Inr L \<and> requires_grad L
    \<and> clip_phase s ((replay_model (train_model rf))\<lparr>parameters :=
            map (\<lambda>k. accumulate (parameters (replay_model (train_model rf)) ! k)
                       (autograd X (replay_model (train_model rf)) bs (vals e) k))
                [0..<length (parameters (replay_model (train_model rf)))]\<rparr>) bi
          (lg @ [ModelTrain, ZeroGrad, Sample (batch_size s), Backward, Update bs (vals ol)])
         = (train3, bi3, lg3)
    \<and> step X (optimizer (epoch_info bi3)) (parameters train3) = (opt, ps)
    \<and> rf' = rf\<lparr>train_model := train3\<lparr>parameters := ps\<rparr>, env_roller := update X bs (vals ol) r2,
             log := lg3 @ [OptimizerStep]\<rparr>
    \<and> bi' = bi3\<lparr>epoch_info := (epoch_info bi3)\<lparr>optimizer := opt\<rparr>,
              data := (data bi3)(''frames'' \<mapsto> Frames k, ''episode_infos'' \<mapsto> EpisodeInfos eis)\<rparr>"
proof -
  obtain bs r2 where sm: "sample X bi (batch_size s) (replay_model (train_model rf)) r = (bs, r2)"
    by (cases "sample X bi (batch_size s) (replay_model (train_model rf)) r") auto
  let ?train = "replay_model (train_model rf)"
  have "\<exists>e. expected_q (net X) s ?train (target_model rf) bs = Inr e"
    using assms sm
    by (cases "expected_q (net X) s ?train (target_model rf) bs")
       (simp_all add: replay_phase_def replay_model_def Let_def ebind_def)
  then obtain e where e: "expected_q (net X) s ?train (target_model rf) bs = Inr e" by blast
  have "\<exists>ol. original_losses (net X) s ?train (target_model rf) bs = Inr ol"
    using assms sm e
    by (cases "original_losses (net X) s ?train (target_model rf) bs")
       (simp_all add: replay_phase_def replay_model_def Let_def ebind_def)
  then obtain ol where ol: "original_losses (net X) s ?train (target_model rf) bs = Inr ol" by blast
  have "\<exists>L. loss bs ol = Inr L"
    using assms sm e ol
    by (cases "loss bs ol") (simp_all add: replay_phase_def replay_model_def Let_def ebind_def)
  then obtain L where L: "loss bs ol = Inr L" by blast
  have rg: "requires_grad L"
    using assms sm e ol L
    by (cases "requires_grad L")
       (simp_all add: replay_phase_def replay_model_def Let_def ebind_def backward_def)
  obtain train3 bi3 lg3 where cp: "clip_phase s (?train\<lparr>parameters :=
            map (\<lambda>k. accumulate (parameters ?train ! k) (autograd X ?train bs (vals e) k))
                [0..<length (parameters ?train)]\<rparr>) bi
          (lg @ [ModelTrain, ZeroGrad, Sample (batch_size s), Backward, Update bs (vals ol)])
         = (train3, bi3, lg3)"
    using prod_cases3 by blast
  obtain opt ps where st: "step X (optimizer (epoch_info bi3)) (parameters train3) = (opt, ps)"
    by (cases "step X (optimizer (epoch_info bi3)) (parameters train3)") auto
  from replay_phase_eq[OF sm e ol L rg cp st, of eis k] assms
  have "rf' = rf\<lparr>train_model := train3\<lparr>parameters := ps\<rparr>, env_roller := update X bs (vals ol) r2,
             log := lg3 @ [OptimizerStep]\<rparr>
    \<and> bi' = bi3\<lparr>epoch_info := (epoch_info bi3)\<lparr>optimizer := opt\<rparr>,
              data := (data bi3)(''frames'' \<mapsto> Frames k, ''episode_infos'' \<mapsto> EpisodeInfos eis)\<rparr>"
    by simp
  with sm e ol L rg cp st show ?thesis by blast
qed


section \<open>Facts about \<open>train_batch\<close>\<close>

text \<open>
  The state of a call of \<open>train_batch\<close> when its rollout phase starts: both models in
  evaluation mode (lines 103 and 104), \<open>epsilon_value\<close> stored (line 110), no frame and no
  episode record yet.
\<close>

definition eval_models :: "('obs, 'cb, 'r) reinforcer \<Rightarrow> ('obs, 'cb, 'r) reinforcer" where
  "eval_models rf = rf\<lparr>train_model := (train_model rf)\<lparr>training := False\<rparr>,
                        target_model := (target_model rf)\<lparr>training := False\<rparr>,
                        log := log rf @ [ModelEval, TargetEval]\<rparr>"

definition with_epsilon :: "settings \<Rightarrow> real \<Rightarrow> ('o, 'cb, 'acc, 'ei) batch_info \<Rightarrow> ('o, 'cb, 'acc, 'ei) batch_info" where
  "with_epsilon s progress bi = bi\<lparr>data := (data bi)(''epsilon_value'' \<mapsto> Scalar (epsilon_schedule s progress))\<rparr>"

definition rollout_start :: "('obs, 'cb, 'r) reinforcer \<Rightarrow> ('obs, 'cb, 'r, 'ei) rollout_state" where
  "rollout_start rf = (env_roller rf, [], 0, log rf @ [ModelEval, TargetEval])"

lemma train_batch_unfold:
  assumes "lookup_progress bi = Inr p"
  shows "train_batch X s rf bi =
     map_option (replay_phase X s (eval_models rf) (with_epsilon s p bi))
       (rollout_phase X s (with_epsilon s p bi) (train_model (eval_models rf)) (rollout_start rf))"
  using assms by (simp add: train_batch_def eval_models_def with_epsilon_def rollout_start_def Let_def)

lemma train_batch_no_progress:
  "lookup_progress bi = Inl e \<Longrightarrow> train_batch X s rf bi = Some (Inl e)"
  by (simp add: train_batch_def Let_def)

text \<open>
  \<open>rollouts_of X s bi m st k\<close>: the rollout phase started in \<open>st\<close> performs \<open>k\<close> steps.
  That is \<open>train_frequency\<close> steps when the env-roller is ready in \<open>st\<close>, and otherwise
  the first number of steps after which it is ready.
\<close>

definition rollouts_of :: "('obs, 'r, 'o, 'cb, 'acc, 'ei) collaborators \<Rightarrow> settings
    \<Rightarrow> ('o, 'cb, 'acc, 'ei) batch_info \<Rightarrow> model \<Rightarrow> ('obs, 'cb, 'r, 'ei) rollout_state \<Rightarrow> nat \<Rightarrow> bool" where
  "rollouts_of X s bi m st k =
     (if is_ready_for_sampling X (fst st) then k = nat (train_frequency s)
      else is_ready_for_sampling X (fst (rollout_for X bi m k st))
           \<and> list_all (\<lambda>j. \<not> is_ready_for_sampling X (fst (rollout_for X bi m j st))) [0..<k])"

lemma rollout_phase_returns:
  assumes "rollouts_of X s bi m st k"
  shows "rollout_phase X s bi m st = Some (rollout_for X bi m k st)"
proof (cases "is_ready_for_sampling X (fst st)")
  case True
  then show ?thesis using assms by (simp add: rollout_phase_def rollouts_of_def)
next
  case False
  then have "warm_up X bi m st = Some (rollout_for X bi m k st)"
    using assms by (intro warm_up_terminates) (simp_all add: rollouts_of_def list_all_iff)
  then show ?thesis using False by (simp add: rollout_phase_def)
qed

lemma rollout_phase_diverges:
  assumes "\<forall>j. \<not> is_ready_for_sampling X (fst (rollout_for X bi m j st))"
  shows "rollout_phase X s bi m st = None"
proof -
  have "\<not> is_ready_for_sampling X (fst (rollout_for X bi m 0 st))" using assms by blast
  then have "\<not> is_ready_for_sampling X (fst st)" by simp
  then show ?thesis using warm_up_diverges[OF assms] by (simp add: rollout_phase_def)
qed

lemma rollout_phase_Some:
  assumes "rollout_phase X s bi m st = Some st'"
  shows "\<exists>k. rollouts_of X s bi m st k \<and> st' = rollout_for X bi m k st"
proof (cases "is_ready_for_sampling X (fst st)")
  case True
  then show ?thesis using assms by (auto simp: rollout_phase_def rollouts_of_def)
next
  case False
  then have w: "warm_up X bi m st = Some st'" using assms by (simp add: rollout_phase_def)
  from warm_up_Some[OF w] obtain k where k: "st' = rollout_for X bi m k st"
    "is_ready_for_sampling X (fst (rollout_for X bi m k st))" by blast
  define k0 where "k0 = (LEAST j. is_ready_for_sampling X (fst (rollout_for X bi m j st)))"
  have r0: "is_ready_for_sampling X (fst (rollout_for X bi m k0 st))"
    unfolding k0_def using k(2) by (rule LeastI)
  have n0: "\<forall>j<k0. \<not> is_ready_for_sampling X (fst (rollout_for X bi m j st))"
    unfolding k0_def using not_less_Least by blast
  have "warm_up X bi m st = Some (rollout_for X bi m k0 st)"
    using r0 n0 by (rule warm_up_terminates)
  then have "st' = rollout_for X bi m k0 st" using w by simp
  then show ?thesis using r0 n0 False by (auto simp: rollouts_of_def list_all_iff)
qed


section \<open>An example world\<close>

text \<open>
  The env-roller's state is the number of transitions in its buffer; it is ready from two
  transitions on, and every rollout step adds one (the second step ends an episode). The
  optimizer counts its steps and subtracts the gradient. The callbacks are numbers: every
  hook of a callback appends the callback's number as a decimal digit to the result
  accumulator, so that the accumulator records which hooks ran and in which order;
  \<open>on_batch_begin\<close> also stores the progress. Folding a batch into the accumulator
  adds 1 and freezing doubles it.
\<close>

definition ex_world :: "(nat, nat, nat, nat, nat, nat) collaborators" where
  "ex_world = \<lparr>
     net = tabular_net,
     reset_weights = map (\<lambda>p. p\<lparr>vals := map (\<lambda>_. 0) (vals p)\<rparr>),
     is_ready_for_sampling = (\<lambda>r. 2 \<le> r),
     rollout = (\<lambda>bi m r. (if r = 1 then Some r else None, r + 1)),
     sample = (\<lambda>bi n m r. (ex_sample, r)),
     update = (\<lambda>bs ls r. r),
     autograd = (\<lambda>m bs e k. if k = 0 then Some [3, 4] else None),
     step = (\<lambda>opt ps. (opt + 1,
        map (\<lambda>p. p\<lparr>vals := (case grad p of None \<Rightarrow> vals p | Some g \<Rightarrow> map2 (-) (vals p) g)\<rparr>) ps)),
     on_epoch_begin = (\<lambda>cb ei. ei\<lparr>result_accumulator := 10 * result_accumulator ei + cb\<rparr>),
     on_batch_begin = (\<lambda>cb bi. bi\<lparr>
        epoch_info := (epoch_info bi)\<lparr>result_accumulator := 10 * result_accumulator (epoch_info bi) + cb\<rparr>,
        data := (data bi)(''progress'' \<mapsto> Scalar (1 / 2))\<rparr>),
     on_batch_end = (\<lambda>cb bi. bi\<lparr>
        epoch_info := (epoch_info bi)\<lparr>result_accumulator := 10 * result_accumulator (epoch_info bi) + cb\<rparr>\<rparr>),
     on_epoch_end = (\<lambda>cb ei. ei\<lparr>result_accumulator := 10 * result_accumulator ei + cb\<rparr>),
     calculate = (\<lambda>acc bi. acc + 1),
     freeze_results = (\<lambda>acc. 2 * acc),
     freeze_epoch_result = (\<lambda>ei. ei)\<rparr>"

definition ex_epoch :: "(nat, nat, nat) epoch_info" where
  "ex_epoch = \<lparr>callbacks = [7, 8], batches_per_epoch = 1, optimizer = 0, result_accumulator = 0\<rparr>"

definition ex_batch :: "(nat, nat, nat, nat) batch_info" where
  "ex_batch = \<lparr>epoch_info = ex_epoch, batch_number = 0, data = [''progress'' \<mapsto> Scalar (1 / 2)]\<rparr>"

definition ex_reinforcer :: "nat \<Rightarrow> (nat, nat, nat) reinforcer" where
  "ex_reinforcer buffered = \<lparr>train_model = ex_train, target_model = ex_target, env_roller = buffered, log = []\<rparr>"

lemma ex_progress: "lookup_progress ex_batch = Inr (1 / 2)"
  by (simp add: lookup_progress_def ex_batch_def)

lemma ex_rollout_step:
  "rollout_step ex_world bi m (r, eis, f, lg) =
     (Suc r, (if r = 1 then eis @ [r] else eis), Suc f, lg @ [Rollout])"
  by (simp add: rollout_step_def ex_world_def)

lemma ex_rollout_for_2:
  "rollout_for ex_world bi m 2 (0, [], 0, lg) = (2, [1], 2, lg @ [Rollout, Rollout])"
  by (simp add: numeral_2_eq_2 ex_rollout_step)

lemma ex_rollouts_cold: "rollouts_of ex_world s bi m (0, eis, f, lg) 2"
  by (simp add: rollouts_of_def numeral_2_eq_2 ex_rollout_step) (simp add: ex_world_def)

lemma ex_rollouts_warm: "rollouts_of ex_world ex_settings bi m (2, eis, f, lg) 2"
  by (simp add: rollouts_of_def ex_settings_def) (simp add: ex_world_def)

lemma ex_replay_model: "replay_model (train_model (eval_models (ex_reinforcer b))) = ex_train"
  by (simp add: replay_model_def eval_models_def ex_reinforcer_def ex_train_def table_def zero_grad_def)

lemma ex_eval_target: "target_model (eval_models (ex_reinforcer b)) = ex_target"
  by (simp add: eval_models_def ex_reinforcer_def ex_target_def table_def)

lemma ex_q_selected:
  "q_selected tabular_net ex_train ex_sample = Inr \<lparr>vals = [5, 0], requires_grad = True\<rparr>"
proof -
  have "states ex_sample = [0, 1]" "actions ex_sample = [1, 0]" by (simp_all add: ex_sample_def)
  moreover have "list_ex requires_grad (parameters ex_train)" by (simp add: ex_train_def table_def)
  ultimately show ?thesis
    by (simp add: q_selected_def call_model_def ex_q gather_dim1_def gather_row_def del: One_nat_def)
qed

lemma ex_original_losses:
  "original_losses tabular_net ex_settings ex_train ex_target ex_sample
     = Inr \<lparr>vals = [2, 1 / 8], requires_grad = True\<rparr>"
  by (simp add: original_losses_def ex_expected_q ex_q_selected smooth_l1_loss_def detach_def
      smooth_l1_def power2_eq_square)

lemma ex_loss:
  "loss ex_sample \<lparr>vals = [2, 1 / 8], requires_grad = True\<rparr> = Inr \<lparr>vals = 9 / 8, requires_grad = True\<rparr>"
  by (simp add: loss_def t_binop_def broadcast2_def from_numpy_def ex_sample_def t_mean_def)

lemma ex_replay_phase:
  "\<exists>rf' bi'. replay_phase ex_world ex_settings (eval_models (ex_reinforcer b)) bi (r, eis, k, lg) = Inr (rf', bi')"
proof -
  let ?rf = "eval_models (ex_reinforcer b)"
  have sm: "sample ex_world bi (batch_size ex_settings) (replay_model (train_model ?rf)) r = (ex_sample, r)"
    by (simp add: ex_world_def)
  have n: "net ex_world = tabular_net" by (simp add: ex_world_def)
  have e: "expected_q (net ex_world) ex_settings (replay_model (train_model ?rf)) (target_model ?rf) ex_sample
      = Inr \<lparr>vals = [5 / 2, - 1 / 2], requires_grad = False\<rparr>"
    by (simp only: n ex_replay_model ex_eval_target ex_expected_q)
  have ol: "original_losses (net ex_world) ex_settings (replay_model (train_model ?rf)) (target_model ?rf) ex_sample
      = Inr \<lparr>vals = [2, 1 / 8], requires_grad = True\<rparr>"
    by (simp only: n ex_replay_model ex_eval_target ex_original_losses)
  have rg: "requires_grad \<lparr>vals = 9 / 8 :: real, requires_grad = True\<rparr>" by simp
  obtain train3 bi3 lg3 where cp: "clip_phase ex_settings ((replay_model (train_model ?rf))\<lparr>parameters :=
            map (\<lambda>k. accumulate (parameters (replay_model (train_model ?rf)) ! k)
                       (autograd ex_world (replay_model (train_model ?rf)) ex_sample
                          (vals \<lparr>vals = [5 / 2, - 1 / 2 :: real], requires_grad = False\<rparr>) k))
                [0..<length (parameters (replay_model (train_model ?rf)))]\<rparr>) bi
          (lg @ [ModelTrain, ZeroGrad, Sample (batch_size ex_settings), Backward,
                 Update ex_sample (vals \<lparr>vals = [2, 1 / 8 :: real], requires_grad = True\<rparr>)])
         = (train3, bi3, lg3)"
    using prod_cases3 by blast
  obtain opt ps where st: "step ex_world (optimizer (epoch_info bi3)) (parameters train3) = (opt, ps)"
    by (cases "step ex_world (optimizer (epoch_info bi3)) (parameters train3)") auto
  from replay_phase_eq[OF sm e ol ex_loss rg cp st] show ?thesis by blast
qed

lemma ex_train_batch_cold:
  "\<exists>rf' bi'. train_batch ex_world ex_settings (ex_reinforcer 0) ex_batch = Some (Inr (rf', bi'))"
proof -
  let ?bi = "with_epsilon ex_settings (1 / 2) ex_batch"
  let ?m = "train_model (eval_models (ex_reinforcer 0))"
  have "rollouts_of ex_world ex_settings ?bi ?m (rollout_start (ex_reinforcer 0)) 2"
    unfolding rollout_start_def ex_reinforcer_def by (simp add: ex_rollouts_cold)
  then have "rollout_phase ex_world ex_settings ?bi ?m (rollout_start (ex_reinforcer 0))
      = Some (rollout_for ex_world ?bi ?m 2 (rollout_start (ex_reinforcer 0)))"
    by (rule rollout_phase_returns)
  moreover obtain r eis k lg where "rollout_for ex_world ?bi ?m 2 (rollout_start (ex_reinforcer 0)) = (r, eis, k, lg)"
    using prod_cases4 by blast
  ultimately show ?thesis
    using ex_replay_phase[of 0 ?bi r eis k lg]
    by (auto simp: train_batch_unfold[OF ex_progress])
qed


lemma replay_phase_InrE:
  assumes "replay_phase X s rf bi (r, eis, k, lg) = Inr (rf', bi')"
  obtains bs r2 e ol L train3 bi3 lg3 opt ps where
      "sample X bi (batch_size s) (replay_model (train_model rf)) r = (bs, r2)"
      "expected_q (net X) s (replay_model (train_model rf)) (target_model rf) bs = Inr e"
      "original_losses (net X) s (replay_model (train_model rf)) (target_model rf) bs = Inr ol"
      "loss bs ol = Inr L" "requires_grad L"
      "clip_phase s ((replay_model (train_model rf))\<lparr>parameters :=
            map (\<lambda>k. accumulate (parameters (replay_model (train_model rf)) ! k)
                       (autograd X (replay_model (train_model rf)) bs (vals e) k))
                [0..<length (parameters (replay_model (train_model rf)))]\<rparr>) bi
          (lg @ [ModelTrain, ZeroGrad, Sample (batch_size s), Backward, Update bs (vals ol)])
         = (train3, bi3, lg3)"
      "step X (optimizer (epoch_info bi3)) (parameters train3) = (opt, ps)"
      "rf' = rf\<lparr>train_model := train3\<lparr>parameters := ps\<rparr>, env_roller := update X bs (vals ol) r2,
             log := lg3 @ [OptimizerStep]\<rparr>"
      "bi' = bi3\<lparr>epoch_info := (epoch_info bi3)\<lparr>optimizer := opt\<rparr>,
              data := (data bi3)(''frames'' \<mapsto> Frames k, ''episode_infos'' \<mapsto> EpisodeInfos eis)\<rparr>"
  using replay_phase_Inr[OF assms] by blast


lemma replay_phase_frames:
  assumes "replay_phase X s rf bi (r, eis, k, lg) = Inr (rf', bi')"
  shows "data bi' ''frames'' = Some (Frames k)" "data bi' ''episode_infos'' = Some (EpisodeInfos eis)"
  using assms by (cases rule: replay_phase_InrE; simp)+

lemma train_batch_returns_iff:
  "train_batch X s rf bi = Some (Inr (rf', bi')) \<longleftrightarrow>
     (\<exists>p k. lookup_progress bi = Inr p
        \<and> rollouts_of X s (with_epsilon s p bi) (train_model (eval_models rf)) (rollout_start rf) k
        \<and> replay_phase X s (eval_models rf) (with_epsilon s p bi)
             (rollout_for X (with_epsilon s p bi) (train_model (eval_models rf)) k (rollout_start rf))
           = Inr (rf', bi'))"
proof
  assume tb: "train_batch X s rf bi = Some (Inr (rf', bi'))"
  show "\<exists>p k. lookup_progress bi = Inr p
        \<and> rollouts_of X s (with_epsilon s p bi) (train_model (eval_models rf)) (rollout_start rf) k
        \<and> replay_phase X s (eval_models rf) (with_epsilon s p bi)
             (rollout_for X (with_epsilon s p bi) (train_model (eval_models rf)) k (rollout_start rf))
           = Inr (rf', bi')"
  proof (cases "lookup_progress bi")
    case (Inl e)
    then show ?thesis using tb by (simp add: train_batch_no_progress)
  next
    case (Inr p)
    from tb obtain st' where st': "rollout_phase X s (with_epsilon s p bi) (train_model (eval_models rf)) (rollout_start rf) = Some st'"
      "replay_phase X s (eval_models rf) (with_epsilon s p bi) st' = Inr (rf', bi')"
      by (auto simp: train_batch_unfold[OF Inr])
    from rollout_phase_Some[OF st'(1)] st'(2) Inr show ?thesis by blast
  qed
next
  assume "\<exists>p k. lookup_progress bi = Inr p
        \<and> rollouts_of X s (with_epsilon s p bi) (train_model (eval_models rf)) (rollout_start rf) k
        \<and> replay_phase X s (eval_models rf) (with_epsilon s p bi)
             (rollout_for X (with_epsilon s p bi) (train_model (eval_models rf)) k (rollout_start rf))
           = Inr (rf', bi')"
  then obtain p k where p: "lookup_progress bi = Inr p"
    and k: "rollouts_of X s (with_epsilon s p bi) (train_model (eval_models rf)) (rollout_start rf) k"
    and rp: "replay_phase X s (eval_models rf) (with_epsilon s p bi)
             (rollout_for X (with_epsilon s p bi) (train_model (eval_models rf)) k (rollout_start rf))
           = Inr (rf', bi')" by blast
  show "train_batch X s rf bi = Some (Inr (rf', bi'))"
    using rollout_phase_returns[OF k] rp by (simp add: train_batch_unfold[OF p])
qed

lemma rollout_for_start:
  "\<exists>r' eis'. rollout_for X bi m k (rollout_start rf) = (r', eis', k, log rf @ [ModelEval, TargetEval] @ replicate k Rollout)"
  using rollout_for_shape[of X bi m k "env_roller rf" "[]" 0 "log rf @ [ModelEval, TargetEval]"]
  by (simp add: rollout_start_def)



lemma ex_rollout_for_fst: "fst (rollout_for ex_world bi m k (r, eis, f, lg)) = r + k"
proof (induction k)
  case 0
  show ?case by simp
next
  case (Suc k)
  obtain r' eis' f' lg' where st: "rollout_for ex_world bi m k (r, eis, f, lg) = (r', eis', f', lg')"
    using prod_cases4 by blast
  with Suc have "r' = r + k" by simp
  then show ?case
    by (simp add: rollout_for_Suc st ex_rollout_step del: rollout_for.simps)
qed





section \<open>The claims about the rollout phase and the single gradient step\<close>

text \<open>
  Claim C3. A call of \<open>train_batch\<close> that finds the env-roller not ready rolls one step at
  a time until it is ready: with \<open>k\<close> the first number of steps after which it is ready,
  the replay phase starts from the state after exactly \<open>k\<close> steps, whatever
  \<open>train_frequency\<close> is, and the env-roller is sampled only there; when it is never
  ready the call does not return. A call that finds it ready rolls exactly
  \<open>train_frequency\<close> steps. After \<open>k\<close> steps the frame counter is \<open>k\<close>, the log has
  \<open>k\<close> rollouts, and the replay phase stores the counter under \<open>frames\<close>.
\<close>

theorem train_batch_rollout_phase:
  assumes "lookup_progress bi = Inr p"
    and "bi1 = with_epsilon s p bi" and "m = train_model (eval_models rf)"
    and "st0 = rollout_start rf"
  shows "(\<not> is_ready_for_sampling X (env_roller rf)
            \<and> is_ready_for_sampling X (fst (rollout_for X bi1 m k st0))
            \<and> (\<forall>j<k. \<not> is_ready_for_sampling X (fst (rollout_for X bi1 m j st0)))
          \<longrightarrow> train_batch X s rf bi = Some (replay_phase X s (eval_models rf) bi1 (rollout_for X bi1 m k st0)))
       \<and> ((\<forall>j. \<not> is_ready_for_sampling X (fst (rollout_for X bi1 m j st0)))
          \<longrightarrow> train_batch X s rf bi = None)
       \<and> (is_ready_for_sampling X (env_roller rf)
          \<longrightarrow> train_batch X s rf bi
              = Some (replay_phase X s (eval_models rf) bi1 (rollout_for X bi1 m (nat (train_frequency s)) st0)))
       \<and> (\<exists>r' eis'. rollout_for X bi1 m k st0
              = (r', eis', k, log rf @ [ModelEval, TargetEval] @ replicate k Rollout))
       \<and> (\<forall>r' eis' k' lg' rf' bi'.
             replay_phase X s (eval_models rf) bi1 (r', eis', k', lg') = Inr (rf', bi')
             \<longrightarrow> data bi' ''frames'' = Some (Frames k'))"
proof (intro conjI impI allI)
  assume a: "\<not> is_ready_for_sampling X (env_roller rf)
            \<and> is_ready_for_sampling X (fst (rollout_for X bi1 m k st0))
            \<and> (\<forall>j<k. \<not> is_ready_for_sampling X (fst (rollout_for X bi1 m j st0)))"
  then have "rollouts_of X s bi1 m st0 k"
    by (simp add: rollouts_of_def assms(4) rollout_start_def list_all_iff)
  from rollout_phase_returns[OF this]
  show "train_batch X s rf bi = Some (replay_phase X s (eval_models rf) bi1 (rollout_for X bi1 m k st0))"
    by (simp add: train_batch_unfold[OF assms(1)] assms(2,3,4))
next
  assume "\<forall>j. \<not> is_ready_for_sampling X (fst (rollout_for X bi1 m j st0))"
  from rollout_phase_diverges[OF this]
  show "train_batch X s rf bi = None"
    by (simp add: train_batch_unfold[OF assms(1)] assms(2,3,4))
next
  assume "is_ready_for_sampling X (env_roller rf)"
  then have "rollouts_of X s bi1 m st0 (nat (train_frequency s))"
    by (simp add: rollouts_of_def assms(4) rollout_start_def)
  from rollout_phase_returns[OF this]
  show "train_batch X s rf bi
      = Some (replay_phase X s (eval_models rf) bi1 (rollout_for X bi1 m (nat (train_frequency s)) st0))"
    by (simp add: train_batch_unfold[OF assms(1)] assms(2,3,4))
next
  show "\<exists>r' eis'. rollout_for X bi1 m k st0
              = (r', eis', k, log rf @ [ModelEval, TargetEval] @ replicate k Rollout)"
    unfolding assms(4) by (rule rollout_for_start)
next
  fix r' eis' k' lg' rf' bi'
  assume "replay_phase X s (eval_models rf) bi1 (r', eis', k', lg') = Inr (rf', bi')"
  then show "data bi' ''frames'' = Some (Frames k')" by (rule replay_phase_frames(1))
qed

theorem train_batch_rollout_phase_witness:
  "train_batch ex_world ex_settings (ex_reinforcer 0) ex_batch
     = Some (replay_phase ex_world ex_settings (eval_models (ex_reinforcer 0))
          (with_epsilon ex_settings (1 / 2) ex_batch) (2, [1], 2, [ModelEval, TargetEval, Rollout, Rollout]))
   \<and> train_frequency (ex_settings\<lparr>train_frequency := 1\<rparr>) = 1
   \<and> train_batch ex_world (ex_settings\<lparr>train_frequency := 1\<rparr>) (ex_reinforcer 0) ex_batch
     = Some (replay_phase ex_world (ex_settings\<lparr>train_frequency := 1\<rparr>) (eval_models (ex_reinforcer 0))
          (with_epsilon (ex_settings\<lparr>train_frequency := 1\<rparr>) (1 / 2) ex_batch)
          (2, [1], 2, [ModelEval, TargetEval, Rollout, Rollout]))
   \<and> train_batch ex_world ex_settings (ex_reinforcer 2) ex_batch
     = Some (replay_phase ex_world ex_settings (eval_models (ex_reinforcer 2))
          (with_epsilon ex_settings (1 / 2) ex_batch) (4, [], 2, [ModelEval, TargetEval, Rollout, Rollout]))"
proof -
  have st: "rollout_start (ex_reinforcer b) = (b, [], 0, [ModelEval, TargetEval])" for b
    by (simp add: rollout_start_def ex_reinforcer_def)
  have r: "is_ready_for_sampling ex_world j \<longleftrightarrow> 2 \<le> j" for j by (simp add: ex_world_def)
  have cold: "\<not> is_ready_for_sampling ex_world (env_roller (ex_reinforcer 0))
      \<and> is_ready_for_sampling ex_world (fst (rollout_for ex_world bi m 2 (rollout_start (ex_reinforcer 0))))
      \<and> (\<forall>j<2. \<not> is_ready_for_sampling ex_world (fst (rollout_for ex_world bi m j (rollout_start (ex_reinforcer 0)))))"
    for bi :: "(nat, nat, nat, nat) batch_info" and m
    by (simp add: st r ex_rollout_for_fst) (simp add: ex_reinforcer_def)
  have w4: "rollout_for ex_world bi m 2 (2, [], 0, lg) = (4, [], 2, lg @ [Rollout, Rollout])"
    for bi :: "(nat, nat, nat, nat) batch_info" and m lg
    by (simp add: numeral_2_eq_2 ex_rollout_step)
  have warm: "is_ready_for_sampling ex_world (env_roller (ex_reinforcer 2))"
    by (simp add: r ex_reinforcer_def)
  have tf: "nat (train_frequency ex_settings) = 2" by (simp add: ex_settings_def)
  note c1 = train_batch_rollout_phase[where X = ex_world and k = 2 and s = ex_settings
      and rf = "ex_reinforcer 0", OF ex_progress refl refl refl]
  note c2 = train_batch_rollout_phase[where X = ex_world and k = 2
      and s = "ex_settings\<lparr>train_frequency := 1\<rparr>" and rf = "ex_reinforcer 0", OF ex_progress refl refl refl]
  note c3 = train_batch_rollout_phase[where X = ex_world and k = 2 and s = ex_settings
      and rf = "ex_reinforcer 2", OF ex_progress refl refl refl]
  have "train_batch ex_world ex_settings (ex_reinforcer 0) ex_batch
     = Some (replay_phase ex_world ex_settings (eval_models (ex_reinforcer 0))
          (with_epsilon ex_settings (1 / 2) ex_batch) (2, [1], 2, [ModelEval, TargetEval, Rollout, Rollout]))"
    using c1 cold by (simp add: st ex_rollout_for_2)
  moreover have "train_batch ex_world (ex_settings\<lparr>train_frequency := 1\<rparr>) (ex_reinforcer 0) ex_batch
     = Some (replay_phase ex_world (ex_settings\<lparr>train_frequency := 1\<rparr>) (eval_models (ex_reinforcer 0))
          (with_epsilon (ex_settings\<lparr>train_frequency := 1\<rparr>) (1 / 2) ex_batch)
          (2, [1], 2, [ModelEval, TargetEval, Rollout, Rollout]))"
    using c2 cold by (simp add: st ex_rollout_for_2)
  moreover have "train_batch ex_world ex_settings (ex_reinforcer 2) ex_batch
     = Some (replay_phase ex_world ex_settings (eval_models (ex_reinforcer 2))
          (with_epsilon ex_settings (1 / 2) ex_batch) (4, [], 2, [ModelEval, TargetEval, Rollout, Rollout]))"
    using c3 warm by (simp add: st tf w4)
  ultimately show ?thesis by simp
qed






section \<open>Facts about the target model\<close>

lemma load_state_dict_state_dict:
  "load_state_dict m sd = Inr m' \<Longrightarrow> state_dict m' = sd"
  by (auto simp: load_state_dict_def state_dict_def list_eq_iff_nth_eq split: if_splits)

lemma initialize_training_Inr:
  assumes "initialize_training X rf = Inr rf'"
  shows "state_dict (target_model rf') = state_dict (train_model rf')"
    and "parameters (train_model rf') = reset_weights X (parameters (train_model rf))"
    and "env_roller rf' = env_roller rf"
  using assms
  by (auto simp: initialize_training_def Let_def ebind_Inr_iff dest: load_state_dict_state_dict)

lemma initialize_training_returns:
  assumes "list_all2 (\<lambda>p q. length (vals p) = length (vals q)) (parameters (target_model rf))
             (reset_weights X (parameters (train_model rf)))"
  shows "\<exists>rf'. initialize_training X rf = Inr rf'"
proof -
  let ?sd = "map vals (reset_weights X (parameters (train_model rf)))"
  have "length ?sd = length (parameters (target_model rf))"
    using assms by (simp add: list_all2_lengthD)
  moreover have "list_all2 (\<lambda>p v. length (vals p) = length v) (parameters (target_model rf)) ?sd"
    using assms by (simp add: list_all2_map2)
  ultimately show ?thesis
    by (simp add: initialize_training_def Let_def load_state_dict_def state_dict_def)
qed

lemma replay_phase_target:
  assumes "replay_phase X s rf bi (r, eis, k, lg) = Inr (rf', bi')"
  shows "target_model rf' = target_model rf"
  using assms by (cases rule: replay_phase_InrE) simp

lemma train_batch_target:
  assumes "train_batch X s rf bi = Some (Inr (rf', bi'))"
  shows "parameters (target_model rf') = parameters (target_model rf)"
proof -
  from assms obtain p k where
    rp: "replay_phase X s (eval_models rf) (with_epsilon s p bi)
             (rollout_for X (with_epsilon s p bi) (train_model (eval_models rf)) k (rollout_start rf))
           = Inr (rf', bi')"
    unfolding train_batch_returns_iff by blast
  obtain r eis f lg where "rollout_for X (with_epsilon s p bi) (train_model (eval_models rf)) k (rollout_start rf)
      = (r, eis, f, lg)" using prod_cases4 by blast
  from replay_phase_target[OF rp[unfolded this]] show ?thesis by (simp add: eval_models_def)
qed

lemma callbacks_new_batch_info [simp]: "callbacks (epoch_info (new_batch_info ei i)) = callbacks ei"
  by (simp add: new_batch_info_def)

lemma epoch_batch_target:
  assumes "epoch_batch X s i (rf, ei) = Some (Inr (rf', ei'))"
  shows "parameters (target_model rf') = parameters (target_model rf)"
proof -
  obtain b lg where h: "run_hooks (on_batch_begin X) (\<lambda>cb. OnBatchBegin cb i)
      (callbacks ei) (new_batch_info ei i, log rf) = (b, lg)"
    by (cases "run_hooks (on_batch_begin X) (\<lambda>cb. OnBatchBegin cb i)
      (callbacks ei) (new_batch_info ei i, log rf)") auto
  from assms h obtain rf2 bi2 where tb: "train_batch X s (rf\<lparr>log := lg\<rparr>) b = Some (Inr (rf2, bi2))"
    and "target_model rf' = target_model rf2"
    by (auto simp: epoch_batch_def Let_def split: option.splits sum.splits prod.splits)
  with train_batch_target[OF tb] show ?thesis by simp
qed

lemma train_batches_target:
  "train_batches X s is (rf, ei) = Some (Inr (rf', ei')) \<Longrightarrow>
     parameters (target_model rf') = parameters (target_model rf)"
proof (induction "is" arbitrary: rf ei)
  case Nil
  then show ?case by simp
next
  case (Cons i "is")
  from Cons.prems obtain rf1 ei1 where 1: "epoch_batch X s i (rf, ei) = Some (Inr (rf1, ei1))"
    and 2: "train_batches X s is (rf1, ei1) = Some (Inr (rf', ei'))"
    by (auto split: option.splits sum.splits)
  from Cons.IH[OF 2] epoch_batch_target[OF 1] show ?case by simp
qed

lemma train_epoch_target:
  assumes "train_epoch X s rf ei = Some (Inr (rf', ei'))"
  shows "parameters (target_model rf') = parameters (target_model rf)"
proof -
  obtain ei1 lg where h: "run_hooks (on_epoch_begin X) OnEpochBegin (callbacks ei) (ei, log rf) = (ei1, lg)"
    by (cases "run_hooks (on_epoch_begin X) OnEpochBegin (callbacks ei) (ei, log rf)") auto
  from assms h obtain rf2 ei2 where tb: "train_batches X s [0..<nat (batches_per_epoch ei1)] (rf\<lparr>log := lg\<rparr>, ei1)
      = Some (Inr (rf2, ei2))" and "target_model rf' = target_model rf2"
    by (auto simp: train_epoch_def Let_def split: option.splits sum.splits prod.splits)
  with train_batches_target[OF tb] show ?thesis by simp
qed

lemma rollout_phase_ignores_target_update_frequency:
  "rollout_phase X (s\<lparr>target_update_frequency := f\<rparr>) bi m st = rollout_phase X s bi m st"
  by (simp add: rollout_phase_def)

lemma expected_q_ignores_target_update_frequency:
  "expected_q n (s\<lparr>target_update_frequency := f\<rparr>) train target bs = expected_q n s train target bs"
  by (simp add: expected_q_def bootstrap_values_def)

lemma original_losses_ignores_target_update_frequency:
  "original_losses n (s\<lparr>target_update_frequency := f\<rparr>) train target bs = original_losses n s train target bs"
  by (simp add: original_losses_def expected_q_ignores_target_update_frequency)

lemma clip_phase_ignores_target_update_frequency:
  "clip_phase (s\<lparr>target_update_frequency := f\<rparr>) train bi lg = clip_phase s train bi lg"
  by (simp add: clip_phase_def)

lemma replay_phase_ignores_target_update_frequency:
  "replay_phase X (s\<lparr>target_update_frequency := f\<rparr>) rf bi = replay_phase X s rf bi"
  by (rule ext) (simp add: replay_phase_def expected_q_ignores_target_update_frequency
      original_losses_ignores_target_update_frequency clip_phase_ignores_target_update_frequency)

lemma train_batch_ignores_target_update_frequency:
  "train_batch X (s\<lparr>target_update_frequency := f\<rparr>) rf bi = train_batch X s rf bi"
  by (simp add: train_batch_def rollout_phase_ignores_target_update_frequency
      replay_phase_ignores_target_update_frequency cong: sum.case_cong)

lemma epoch_batch_ignores_target_update_frequency:
  "epoch_batch X (s\<lparr>target_update_frequency := f\<rparr>) i st = epoch_batch X s i st"
  by (simp add: epoch_batch_def train_batch_ignores_target_update_frequency)

lemma train_batches_ignores_target_update_frequency:
  "train_batches X (s\<lparr>target_update_frequency := f\<rparr>) is st = train_batches X s is st"
  by (induction "is" arbitrary: st)
     (simp_all add: epoch_batch_ignores_target_update_frequency cong: option.case_cong sum.case_cong)

lemma train_epoch_ignores_target_update_frequency:
  "train_epoch X (s\<lparr>target_update_frequency := f\<rparr>) rf ei = train_epoch X s rf ei"
  by (simp add: train_epoch_def train_batches_ignores_target_update_frequency)


text \<open>The example after \<open>loss.backward()\<close>: the first parameter has the gradient \<open>(3, 4)\<close>.\<close>

definition ex_backward :: "param list" where
  "ex_backward = [\<lparr>vals = [1, 5], requires_grad = True, grad = Some [3, 4]\<rparr>,
                  \<lparr>vals = [0, 0], requires_grad = True, grad = None\<rparr>]"

lemma ex_backward_eq:
  "map (\<lambda>k. accumulate (parameters ex_train ! k) (autograd ex_world ex_train bs e k))
       [0..<length (parameters ex_train)] = ex_backward"
proof -
  have "[0..<length (parameters ex_train)] = [0, Suc 0]"
    by (simp add: ex_train_def table_def upt_rec)
  then show ?thesis
    by (simp add: ex_train_def table_def accumulate_def ex_world_def ex_backward_def)
qed

lemma ex_total_norm: "total_norm requires_grad ex_backward = 5"
proof -
  have "sum_list (map grad_sq (filter requires_grad ex_backward)) = 5\<^sup>2"
    by (simp add: ex_backward_def grad_sq_def)
  then show ?thesis by (simp add: total_norm_def)
qed

lemma ex_clip:
  "clip_grad_norm requires_grad ex_backward 1 =
     ([\<lparr>vals = [1, 5], requires_grad = True, grad = Some [3 * (1000000 / 5000001), 4 * (1000000 / 5000001)]\<rparr>,
       \<lparr>vals = [0, 0], requires_grad = True, grad = None\<rparr>], 5)"
  by (simp add: clip_grad_norm_def ex_total_norm Let_def) (simp add: ex_backward_def scale_grad_def)

lemma ex_replay_phase_state:
  assumes "replay_phase ex_world ex_settings (eval_models (ex_reinforcer b)) bi (r, eis, k, lg) = Inr (rf', bi')"
  shows "parameters (train_model rf') =
     [\<lparr>vals = [1 - 3 * (1000000 / 5000001), 5 - 4 * (1000000 / 5000001)], requires_grad = True,
       grad = Some [3 * (1000000 / 5000001), 4 * (1000000 / 5000001)]\<rparr>,
      \<lparr>vals = [0, 0], requires_grad = True, grad = None\<rparr>]
    \<and> data bi' ''grad_norm'' = Some (Scalar 5)
    \<and> parameters (target_model rf') = parameters ex_target"
  using assms
proof (cases rule: replay_phase_InrE)
  case (1 bs r2 e ol L train3 bi3 lg3 opt ps)
  have mg: "max_grad_norm ex_settings = Some 1" by (simp add: ex_settings_def)
  have cp: "clip_phase ex_settings (ex_train\<lparr>parameters := ex_backward\<rparr>) bi
      (lg @ [ModelTrain, ZeroGrad, Sample (batch_size ex_settings), Backward, Update bs (vals ol)])
      = (train3, bi3, lg3)"
    using 1(6) by (simp only: ex_replay_model ex_backward_eq)
  then have t3: "parameters train3 = fst (clip_grad_norm requires_grad ex_backward 1)"
    and b3: "data bi3 ''grad_norm'' = Some (Scalar 5)"
    by (auto simp: clip_phase_def mg ex_clip)
  have "ps = snd (step ex_world (optimizer (epoch_info bi3)) (parameters train3))"
    using 1(7) by simp
  then have a: "parameters (train_model rf') =
     [\<lparr>vals = [1 - 3 * (1000000 / 5000001), 5 - 4 * (1000000 / 5000001)], requires_grad = True,
       grad = Some [3 * (1000000 / 5000001), 4 * (1000000 / 5000001)]\<rparr>,
      \<lparr>vals = [0, 0], requires_grad = True, grad = None\<rparr>]"
    using 1(8) by (simp add: t3 ex_clip) (simp add: ex_world_def)
  have b: "data bi' ''grad_norm'' = Some (Scalar 5)" using 1(9) b3 by simp
  have c: "parameters (target_model rf') = parameters ex_target"
    using 1(8) by (simp add: ex_eval_target)
  show ?thesis using a b c by blast
qed

lemmas ex_replay_phase_train = ex_replay_phase_state[THEN conjunct1]

lemma ex_initialize_training:
  "\<exists>rf'. initialize_training ex_world (ex_reinforcer 0) = Inr rf'
     \<and> state_dict (train_model rf') = [[0, 0], [0, 0]] \<and> state_dict (target_model rf') = [[0, 0], [0, 0]]"
  by (simp add: initialize_training_def ex_world_def ex_reinforcer_def ex_train_def ex_target_def table_def
      state_dict_def load_state_dict_def Let_def)

text \<open>
  Claim C5. \<open>initialize_training\<close> makes the target model's values equal to the freshly
  reset train model's. \<open>train_batch\<close> and \<open>train_epoch\<close> return with the target model's
  parameters as they found them, so after \<open>initialize_training\<close> and an epoch they are
  still the snapshot; neither reads \<open>target_update_frequency\<close>.
\<close>

theorem target_model_written_only_by_initialize_training:
  "(initialize_training X rf = Inr rf1 \<longrightarrow>
       state_dict (target_model rf1) = state_dict (train_model rf1)
     \<and> parameters (train_model rf1) = reset_weights X (parameters (train_model rf)))
   \<and> (train_batch X s rf bi = Some (Inr (rf2, bi2)) \<longrightarrow>
       parameters (target_model rf2) = parameters (target_model rf))
   \<and> (train_epoch X s rf ei = Some (Inr (rf3, ei3)) \<longrightarrow>
       parameters (target_model rf3) = parameters (target_model rf))
   \<and> (initialize_training X rf = Inr rf1 \<and> train_epoch X s rf1 ei = Some (Inr (rf4, ei4)) \<longrightarrow>
       state_dict (target_model rf4) = map vals (reset_weights X (parameters (train_model rf))))
   \<and> train_batch X (s\<lparr>target_update_frequency := f\<rparr>) rf bi = train_batch X s rf bi
   \<and> train_epoch X (s\<lparr>target_update_frequency := f\<rparr>) rf ei = train_epoch X s rf ei"
proof (intro conjI impI)
  assume i: "initialize_training X rf = Inr rf1"
  show "state_dict (target_model rf1) = state_dict (train_model rf1)"
    using i by (rule initialize_training_Inr(1))
  show "parameters (train_model rf1) = reset_weights X (parameters (train_model rf))"
    using i by (rule initialize_training_Inr(2))
next
  assume "train_batch X s rf bi = Some (Inr (rf2, bi2))"
  then show "parameters (target_model rf2) = parameters (target_model rf)" by (rule train_batch_target)
next
  assume "train_epoch X s rf ei = Some (Inr (rf3, ei3))"
  then show "parameters (target_model rf3) = parameters (target_model rf)" by (rule train_epoch_target)
next
  assume a: "initialize_training X rf = Inr rf1 \<and> train_epoch X s rf1 ei = Some (Inr (rf4, ei4))"
  then have "parameters (target_model rf4) = parameters (target_model rf1)"
    using train_epoch_target by blast
  then have "state_dict (target_model rf4) = state_dict (target_model rf1)" by (simp add: state_dict_def)
  also have "\<dots> = state_dict (train_model rf1)" using a initialize_training_Inr(1) by blast
  also have "\<dots> = map vals (reset_weights X (parameters (train_model rf)))"
    using a initialize_training_Inr(2)[of X rf rf1] by (simp add: state_dict_def)
  finally show "state_dict (target_model rf4) = map vals (reset_weights X (parameters (train_model rf)))" .
next
  show "train_batch X (s\<lparr>target_update_frequency := f\<rparr>) rf bi = train_batch X s rf bi"
    by (rule train_batch_ignores_target_update_frequency)
  show "train_epoch X (s\<lparr>target_update_frequency := f\<rparr>) rf ei = train_epoch X s rf ei"
    by (rule train_epoch_ignores_target_update_frequency)
qed

theorem target_model_written_only_by_initialize_training_witness:
  "\<exists>rf1 rf2 bi2.
     initialize_training ex_world (ex_reinforcer 0) = Inr rf1
   \<and> state_dict (target_model rf1) = [[0, 0], [0, 0]]
   \<and> state_dict (target_model rf1) = state_dict (train_model rf1)
   \<and> train_batch ex_world ex_settings (ex_reinforcer 0) ex_batch = Some (Inr (rf2, bi2))
   \<and> parameters (target_model rf2) = parameters (target_model (ex_reinforcer 0))
   \<and> parameters (train_model rf2) \<noteq> parameters (train_model (ex_reinforcer 0))"
proof -
  obtain rf1 where i: "initialize_training ex_world (ex_reinforcer 0) = Inr rf1"
    "state_dict (target_model rf1) = [[0, 0], [0, 0]]"
    using ex_initialize_training by blast
  obtain rf2 bi2 where tb: "train_batch ex_world ex_settings (ex_reinforcer 0) ex_batch = Some (Inr (rf2, bi2))"
    using ex_train_batch_cold by blast
  note t = target_model_written_only_by_initialize_training[of ex_world "ex_reinforcer 0" rf1
      ex_settings ex_batch rf2 bi2]
  have 1: "state_dict (target_model rf1) = state_dict (train_model rf1)" using t i(1) by blast
  have 2: "parameters (target_model rf2) = parameters (target_model (ex_reinforcer 0))" using t tb by blast
  from tb obtain p k where
    rp: "replay_phase ex_world ex_settings (eval_models (ex_reinforcer 0)) (with_epsilon ex_settings p ex_batch)
             (rollout_for ex_world (with_epsilon ex_settings p ex_batch)
                (train_model (eval_models (ex_reinforcer 0))) k (rollout_start (ex_reinforcer 0)))
           = Inr (rf2, bi2)"
    unfolding train_batch_returns_iff by blast
  obtain r eis f lg where "rollout_for ex_world (with_epsilon ex_settings p ex_batch)
                (train_model (eval_models (ex_reinforcer 0))) k (rollout_start (ex_reinforcer 0)) = (r, eis, f, lg)"
    using prod_cases4 by blast
  from ex_replay_phase_train[OF rp[unfolded this]]
  have 3: "parameters (train_model rf2) \<noteq> parameters (train_model (ex_reinforcer 0))"
    by (simp add: ex_reinforcer_def ex_train_def table_def)
  show ?thesis using i tb 1 2 3 by blast
qed


section \<open>Gradient clipping\<close>





lemma requires_grad_scale_grad [simp]: "requires_grad (scale_grad c p) = requires_grad p"
  by (simp add: scale_grad_def)














section \<open>Permuting the batch\<close>

text \<open>
  \<open>reorder p xs\<close> lists the entries of \<open>xs\<close> in the order of the indices \<open>p\<close>; a
  permutation of a batch of \<open>n\<close> samples is a list \<open>p\<close> with the elements of
  \<open>[0..<n]\<close>, applied to each array of the sample.
\<close>

definition reorder :: "nat list \<Rightarrow> 'a list \<Rightarrow> 'a list" where
  "reorder p xs = map (\<lambda>i. xs ! i) p"






lemma reorder_nth: "i < length p \<Longrightarrow> reorder p xs ! i = xs ! (p ! i)"
  by (simp add: reorder_def)

lemma length_reorder [simp]: "length (reorder p xs) = length p"
  by (simp add: reorder_def)












section \<open>The order of the hooks in \<open>train_epoch\<close>\<close>























section \<open>Construction does not validate\<close>

text \<open>
  Claim C8, as stated, fails: \<open>create\<close> with a batch size of 0, a train frequency of -1
  and a discount factor of 2 returns a factory holding these settings, and the factory
  instantiates a reinforcer.
\<close>

theorem create_rejects_invalid_settings_counterexample:
  "\<exists>f. create 0 (\<lambda>env. ex_train) (\<lambda>seed. ()) (\<lambda>env st. 0 :: nat) (\<lambda>p. p) (- 1) 0 10 2 None False = Inr f
     \<and> batch_size (f_settings f) = 0 \<and> batch_size (f_settings f) \<le> 0
     \<and> train_frequency (f_settings f) = - 1 \<and> train_frequency (f_settings f) \<le> 0
     \<and> discount_factor (f_settings f) = 2 \<and> 1 \<le> discount_factor (f_settings f)
     \<and> (\<exists>rf :: (nat, nat, nat) reinforcer. instantiate f = Inr (f_settings f, rf))
     \<and> (\<exists>st. DqnReinforcerSettings (\<lambda>p. p) (- 1) 0 False 10 2 None = Inr st \<and> batch_size st = 0)"
  by (simp add: create_def DqnReinforcerSettings_def instantiate_def)

text \<open>
  Claim C8, amended. \<open>DqnReinforcerSettings\<close>, \<open>create\<close> and \<open>instantiate\<close> accept every
  value: the settings hold the arguments as given, the factory holds the settings, and the
  reinforcer is built with them.
\<close>

theorem create_stores_settings_unchecked:
  "DqnReinforcerSettings eps tf bsz dd tuf df mgn
     = Inr \<lparr>epsilon_schedule = eps, train_frequency = tf, batch_size = bsz, double_dqn = dd,
            target_update_frequency = tuf, discount_factor = df, max_grad_norm = mgn\<rparr>
   \<and> create sd mf ef rlf eps tf bsz tuf df mgn dd
     = Inr \<lparr>f_settings = \<lparr>epsilon_schedule = eps, train_frequency = tf, batch_size = bsz, double_dqn = dd,
                          target_update_frequency = tuf, discount_factor = df, max_grad_norm = mgn\<rparr>,
            env_factory = ef, model_factory = mf, env_roller_factory = rlf, seed = sd\<rparr>
   \<and> instantiate f
     = Inr (f_settings f,
            \<lparr>train_model = model_factory f (env_factory f (seed f)),
             target_model = model_factory f (env_factory f (seed f)),
             env_roller = env_roller_factory f (env_factory f (seed f)) (f_settings f),
             log = []\<rparr>)"
  by (simp add: create_def DqnReinforcerSettings_def instantiate_def Let_def)

end
